theory Spec2Isabelle
  imports Main "HOL-Library.Sublist"
begin

section \<open>Python text\<close>

text \<open>
  A Python \<open>str\<close> (and a \<open>bytes\<close> value) is a \<open>string\<close>: the character with code
  \<open>n\<close> stands for the code point (or the byte) \<open>n\<close>, so the model speaks of text whose
  code points are below 256. The methods of \<open>str\<close> that \<open>main.py\<close> calls are written out
  below as Python defines them.
\<close>

abbreviation DQ :: char where
  "DQ \<equiv> CHR 0x22"

abbreviation LF :: char where
  "LF \<equiv> CHR 0x0A"

abbreviation CR :: char where
  "CR \<equiv> CHR 0x0D"

text \<open>\<open>s.startswith(p)\<close> and \<open>s.endswith(p)\<close>.\<close>

definition startswith :: "string \<Rightarrow> string \<Rightarrow> bool" where
  "startswith s p = prefix p s"

definition endswith :: "string \<Rightarrow> string \<Rightarrow> bool" where
  "endswith s p = suffix p s"

text \<open>\<open>sub in s\<close>: \<open>sub\<close> occurs in \<open>s\<close> as a contiguous run.\<close>

fun str_in :: "string \<Rightarrow> string \<Rightarrow> bool" where
  "str_in sub [] = (sub = [])"
| "str_in sub (c # cs) = (prefix sub (c # cs) \<or> str_in sub cs)"

text \<open>
  \<open>s.split(sep)\<close> for a separator that is not empty (every separator of \<open>main.py\<close> is a
  literal): the occurrences of \<open>sep\<close> are found from the left and do not overlap. The
  separator is given as its first character and the rest.
\<close>

function str_split_at :: "char \<Rightarrow> string \<Rightarrow> string \<Rightarrow> string list" where
  "str_split_at d ds [] = [[]]"
| "str_split_at d ds (c # cs) =
     (if prefix (d # ds) (c # cs) then [] # str_split_at d ds (drop (length ds) cs)
      else (case str_split_at d ds cs of
              [] \<Rightarrow> [[c]]
            | p # ps \<Rightarrow> (c # p) # ps))"
  by pat_completeness auto
termination
  by (relation "measure (\<lambda>(d, ds, s). length s)") auto

definition str_split :: "string \<Rightarrow> string \<Rightarrow> string list" where
  "str_split s sep = (case sep of [] \<Rightarrow> [s] | d # ds \<Rightarrow> str_split_at d ds s)"

text \<open>
  \<open>s.replace(old, new)\<close>: every occurrence of \<open>old\<close>, found from the left without
  overlap, becomes \<open>new\<close>; an empty \<open>old\<close> matches before every character and at the end.
\<close>

function str_replace_at :: "char \<Rightarrow> string \<Rightarrow> string \<Rightarrow> string \<Rightarrow> string" where
  "str_replace_at d ds new [] = []"
| "str_replace_at d ds new (c # cs) =
     (if prefix (d # ds) (c # cs) then new @ str_replace_at d ds new (drop (length ds) cs)
      else c # str_replace_at d ds new cs)"
  by pat_completeness auto
termination
  by (relation "measure (\<lambda>(d, ds, new, s). length s)") auto

definition str_replace :: "string \<Rightarrow> string \<Rightarrow> string \<Rightarrow> string" where
  "str_replace s old new =
     (case old of
        [] \<Rightarrow> new @ concat (map (\<lambda>c. c # new) s)
      | d # ds \<Rightarrow> str_replace_at d ds new s)"

text \<open>\<open>s.lstrip(chars)\<close> for a one-character \<open>chars\<close>.\<close>

definition str_lstrip :: "string \<Rightarrow> char \<Rightarrow> string" where
  "str_lstrip s c = dropWhile (\<lambda>x. x = c) s"

text \<open>
  \<open>s.strip()\<close> removes the white space of both ends; below 256 the code points for which
  \<open>str.isspace\<close> holds are 9 to 13, 28 to 32, 133 and 160.
\<close>

definition isspace :: "char \<Rightarrow> bool" where
  "isspace c =
     (let n = (of_char c :: nat)
      in (9 \<le> n \<and> n \<le> 13) \<or> (28 \<le> n \<and> n \<le> 32) \<or> n = 133 \<or> n = 160)"

definition str_strip :: "string \<Rightarrow> string" where
  "str_strip s = rev (dropWhile isspace (rev (dropWhile isspace s)))"

text \<open>\<open>sep.join(parts)\<close>.\<close>

fun str_join :: "string \<Rightarrow> string list \<Rightarrow> string" where
  "str_join sep [] = []"
| "str_join sep [p] = p"
| "str_join sep (p # q # ps) = p @ sep @ str_join sep (q # ps)"

text \<open>
  \<open>s.splitlines()\<close>: a line ends at \<open>\n\<close>, \<open>\r\<close>, \<open>\r\n\<close> and at the code points 11, 12,
  28, 29, 30 and 133; the line ends are dropped and a text that ends with one has no
  empty last line. \<open>cur\<close> is the line being read, reversed.
\<close>

definition is_line_end :: "char \<Rightarrow> bool" where
  "is_line_end c =
     (let n = (of_char c :: nat)
      in n = 10 \<or> n = 11 \<or> n = 12 \<or> n = 13 \<or> n = 28 \<or> n = 29 \<or> n = 30 \<or> n = 133)"

fun splitlines_from :: "string \<Rightarrow> string \<Rightarrow> string list" where
  "splitlines_from cur [] = (if cur = [] then [] else [rev cur])"
| "splitlines_from cur [c] =
     (if is_line_end c then [rev cur] else [rev (c # cur)])"
| "splitlines_from cur (c # c' # cs) =
     (if c = CR \<and> c' = LF then rev cur # splitlines_from [] cs
      else if is_line_end c then rev cur # splitlines_from [] (c' # cs)
      else splitlines_from (c # cur) (c' # cs))"

definition str_splitlines :: "string \<Rightarrow> string list" where
  "str_splitlines s = splitlines_from [] s"

text \<open>\<open>xs[i]\<close> for a list index that is not negative: out of range it raises.\<close>

datatype exn =
    is_HTTPError: HTTPError string
  | IndexError
  | ValueError string
  | UnicodeDecodeError string
  | HTTPException nat string
  | OtherException string

definition index :: "'a list \<Rightarrow> nat \<Rightarrow> exn + 'a" where
  "index xs i = (if i < length xs then Inr (xs ! i) else Inl IndexError)"

text \<open>\<open>str(n)\<close> for an integer, as an f-string prints it.\<close>

function digits :: "nat \<Rightarrow> string" where
  "digits n =
     (if n < 10 then [''0123456789'' ! n] else digits (n div 10) @ [''0123456789'' ! (n mod 10)])"
  by pat_completeness auto
termination
  by (relation "measure id") auto

definition str_int :: "int \<Rightarrow> string" where
  "str_int i = (if i < 0 then CHR ''-'' # digits (nat (- i)) else digits (nat i))"

section \<open>The world outside: HTTP client and library calls\<close>

text \<open>
  \<open>main.py\<close> talks to its upstream hosts through \<open>httpx\<close> and leans on \<open>urllib\<close>,
  \<open>re\<close> and the UTF-8 codec. None of that is code of the repository, so it is a
  parameter of the model: an \<open>env\<close> says what each of these calls answers.

  A request is what \<open>client.get\<close> or \<open>client.post\<close> is called with; a Python \<open>dict\<close> of
  headers is an association list in insertion order.
\<close>

datatype http_method = GET | POST

type_synonym headers = "(string \<times> string) list"

record request =
  req_method :: http_method
  req_url :: string
  req_headers :: headers
  req_json :: "headers option"

text \<open>
  What the code reads from an \<open>httpx.Response\<close>: \<open>status_code\<close>, \<open>content\<close>, \<open>text\<close> and
  \<open>headers.get(name)\<close>.
\<close>

record response =
  resp_status_code :: nat
  resp_content :: string
  resp_text :: string
  resp_headers_get :: "string \<Rightarrow> string option"

text \<open>
  \<^item> \<open>http\<close>: the outcome of one outbound call, which may depend on every request sent
    before it: a response, or the exception the call raises (\<open>HTTPError\<close> stands for
    \<open>httpx.HTTPError\<close> and its subclasses);
  \<^item> \<open>raise_for_status\<close>: the exception \<open>response.raise_for_status()\<close> raises, if any;
  \<^item> \<open>unquote\<close>, \<open>urljoin\<close>: \<open>urllib.parse.unquote\<close> and \<open>urljoin\<close>;
  \<^item> \<open>urlparse\<close>: the \<open>scheme\<close> and \<open>netloc\<close> of \<open>urllib.parse.urlparse\<close>;
  \<^item> \<open>decode_utf8\<close>: \<open>bytes.decode("utf-8")\<close>;
  \<^item> \<open>re_search_m3u8\<close>: group 0 of \<open>re.search\<close> with the pattern of \<open>fetch_m3u8_url\<close>;
  \<^item> \<open>str_exn\<close>: \<open>str(e)\<close> of a caught exception.
\<close>

record env =
  http :: "request list \<Rightarrow> request \<Rightarrow> exn + response"
  raise_for_status :: "response \<Rightarrow> exn option"
  unquote :: "string \<Rightarrow> string"
  urljoin :: "string \<Rightarrow> string \<Rightarrow> exn + string"
  urlparse :: "string \<Rightarrow> exn + string \<times> string"
  decode_utf8 :: "string \<Rightarrow> exn + string"
  re_search_m3u8 :: "string \<Rightarrow> string option"
  str_exn :: "exn \<Rightarrow> string"

section \<open>Constants and global state\<close>

definition SOURCE_URL :: string where
  "SOURCE_URL = ''https://fishy.streamed.su/''"

definition COOKIE_URL :: string where
  "COOKIE_URL = ''https://fishy.streamed.su/api/event''"

definition HEADERS :: headers where
  "HEADERS =
     [(''User-Agent'', ''Mozilla/5.0 (Linux; Android 10; K) AppleWebKit/537.36 (KHTML, like Gecko) Chrome/132.0.0.0 Mobile Safari/537.36''),
      (''Referer'', ''https://embedstreams.top/''),
      (''Origin'', ''https://embedstreams.top''),
      (''Accept'', ''*/*''),
      (''Accept-Encoding'', ''identity''),
      (''Accept-Language'', ''en-GB,en-US;q=0.9,en;q=0.8''),
      (''Sec-Ch-Ua'', [DQ] @ ''Not A(Brand'' @ [DQ] @ '';v='' @ [DQ] @ ''8'' @ [DQ] @ '', ''
                      @ [DQ] @ ''Chromium'' @ [DQ] @ '';v='' @ [DQ] @ ''132'' @ [DQ]),
      (''Sec-Ch-Ua-Mobile'', ''?1''),
      (''Sec-Ch-Ua-Platform'', [DQ] @ ''Android'' @ [DQ]),
      (''Sec-Fetch-Dest'', ''empty''),
      (''Sec-Fetch-Mode'', ''cors''),
      (''Sec-Fetch-Site'', ''cross-site''),
      (''Content-Type'', ''application/json''),
      (''X-Requested-With'', ''XMLHttpRequest''),
      (''X-Forwarded-For'', ''127.0.0.1'')]"

text \<open>\<open>d[k] = v\<close> on a \<open>dict\<close>: a key that is there keeps its place.\<close>

fun dict_set :: "headers \<Rightarrow> string \<Rightarrow> string \<Rightarrow> headers" where
  "dict_set [] k v = [(k, v)]"
| "dict_set ((k', v') # d) k v = (if k' = k then (k, v) # d else (k', v') # dict_set d k v)"

text \<open>
  The two module globals, and \<open>sent\<close>: every outbound request made so far, in order. The
  model handles one inbound request at a time.
\<close>

record state =
  SEGMENT_MAP :: "string \<rightharpoonup> string"
  CACHED_COOKIES :: "string option"
  sent :: "request list"

definition initial_state :: state where
  "initial_state = \<lparr>SEGMENT_MAP = Map.empty, CACHED_COOKIES = None, sent = []\<rparr>"

text \<open>One outbound call: it is answered from the requests sent before it, and recorded.\<close>

definition send :: "env \<Rightarrow> request \<Rightarrow> state \<Rightarrow> (exn + response) \<times> state" where
  "send E req s = (http E (sent s) req, s\<lparr>sent := sent s @ [req]\<rparr>)"

section \<open>\<open>fetch_resource\<close>\<close>

text \<open>
  \<open>client.get(source_url, headers=headers)\<close> followed by \<open>response.raise_for_status()\<close>.
\<close>

definition get_checked :: "env \<Rightarrow> string \<Rightarrow> headers \<Rightarrow> state \<Rightarrow> (exn + response) \<times> state" where
  "get_checked E source_url hs s =
     (case send E \<lparr>req_method = GET, req_url = source_url, req_headers = hs, req_json = None\<rparr> s of
        (Inl e, s') \<Rightarrow> (Inl e, s')
      | (Inr response, s') \<Rightarrow>
          (case raise_for_status E response of
             Some e \<Rightarrow> (Inl e, s')
           | None \<Rightarrow> (Inr response, s')))"

definition resolved_content_type :: "string \<Rightarrow> response \<Rightarrow> string" where
  "resolved_content_type source_url response =
     (if endswith source_url ''.ts'' \<or> endswith source_url ''.js'' then ''video/mp2t''
      else (case resp_headers_get response ''content-type'' of
              None \<Rightarrow> ''application/octet-stream''
            | Some t \<Rightarrow> t))"

text \<open>
  The inner loop \<open>for attempt in range(1, retries + 1)\<close> on one candidate. Its result
  is \<open>Inr (Some r)\<close> when the function returns \<open>r\<close>, \<open>Inr None\<close> when the loop ends or
  breaks and the next candidate is due, and \<open>Inl e\<close> when \<open>e\<close> is not an
  \<open>httpx.HTTPError\<close> and leaves the function.
\<close>

fun attempt_loop ::
  "env \<Rightarrow> string \<Rightarrow> headers \<Rightarrow> int \<Rightarrow> int list \<Rightarrow> state
    \<Rightarrow> (exn + (string \<times> string) option) \<times> state" where
  "attempt_loop E source_url hs retries [] s = (Inr None, s)"
| "attempt_loop E source_url hs retries (attempt # rest) s =
     (case get_checked E source_url hs s of
        (Inr response, s') \<Rightarrow>
          (Inr (Some (resp_content response, resolved_content_type source_url response)), s')
      | (Inl e, s') \<Rightarrow>
          if is_HTTPError e then
            (if attempt = retries then (Inr None, s')
             else attempt_loop E source_url hs retries rest s')
          else (Inl e, s'))"

text \<open>The outer loop \<open>for source_url in sources\<close>; after it the function returns \<open>None\<close>.\<close>

fun source_loop ::
  "env \<Rightarrow> headers \<Rightarrow> int \<Rightarrow> string list \<Rightarrow> state
    \<Rightarrow> (exn + (string \<times> string) option) \<times> state" where
  "source_loop E hs retries [] s = (Inr None, s)"
| "source_loop E hs retries (source_url # rest) s =
     (case attempt_loop E source_url hs retries [1..retries] s of
        (Inr None, s') \<Rightarrow> source_loop E hs retries rest s'
      | (r, s') \<Rightarrow> (r, s'))"

definition sources :: "string \<Rightarrow> string list" where
  "sources url =
     [url,
      str_replace url ''rr.buytommy.top'' ''p2-panel.streamed.su'',
      str_replace url ''rr.buytommy.top'' ''flu.streamed.su'']"

definition fetch_resource ::
  "env \<Rightarrow> string \<Rightarrow> string \<Rightarrow> int \<Rightarrow> state \<Rightarrow> (exn + (string \<times> string) option) \<times> state" where
  "fetch_resource E url cookies retries s =
     source_loop E (dict_set HEADERS ''Cookie'' cookies) retries (sources url) s"

section \<open>\<open>fetch_cookies\<close> and \<open>fetch_m3u8_url\<close>\<close>

text \<open>The truth value of a value that is \<open>None\<close> or a \<open>str\<close>.\<close>

definition truthy :: "string option \<Rightarrow> bool" where
  "truthy v = (case v of None \<Rightarrow> False | Some t \<Rightarrow> t \<noteq> [])"

text \<open>
  The body of \<open>for cookie in cookies.split(",")\<close>: the name and value kept from one
  piece of the \<open>set-cookie\<close> header, if it has exactly one \<open>=\<close> before its first \<open>;\<close>.
\<close>

definition cookie_pair :: "string \<Rightarrow> (string \<times> string) option" where
  "cookie_pair cookie =
     (case str_split (str_strip (hd (str_split cookie '';''))) ''='' of
        [name, val] \<Rightarrow> Some (str_lstrip (str_strip name) CHR ''_'', str_strip val)
      | _ \<Rightarrow> None)"

definition cookie_dict :: "string \<Rightarrow> headers" where
  "cookie_dict cookies =
     fold (\<lambda>cookie d. case cookie_pair cookie of None \<Rightarrow> d | Some (name, val) \<Rightarrow> dict_set d name val)
       (str_split cookies '','') []"

definition required_cookies :: "string list" where
  "required_cookies = [''ddg8_'', ''ddg10_'', ''ddg9_'', ''ddg1_'']"

definition formatted_cookies :: "string \<Rightarrow> string" where
  "formatted_cookies cookies =
     (let d = cookie_dict cookies
      in str_join ''; ''
           (concat (map (\<lambda>key. case map_of d key of None \<Rightarrow> [] | Some val \<Rightarrow> [key @ ''='' @ val])
                       required_cookies)))"

definition fetch_cookies :: "env \<Rightarrow> state \<Rightarrow> (exn + string option) \<times> state" where
  "fetch_cookies E s =
     (if truthy (CACHED_COOKIES s) then (Inr (CACHED_COOKIES s), s)
      else
        (case send E \<lparr>req_method = POST, req_url = COOKIE_URL, req_headers = HEADERS,
                      req_json = Some [(''event'', ''pageview'')]\<rparr> s of
           (Inl e, s') \<Rightarrow> if is_HTTPError e then (Inr None, s') else (Inl e, s')
         | (Inr response, s') \<Rightarrow>
             (let cookies = resp_headers_get response ''set-cookie''
              in if \<not> truthy cookies then (Inr None, s')
                 else
                   (let formatted = formatted_cookies (case cookies of None \<Rightarrow> [] | Some c \<Rightarrow> c)
                    in if formatted = [] then (Inr None, s')
                       else (Inr (Some formatted), s'\<lparr>CACHED_COOKIES := Some formatted\<rparr>)))))"

definition fetch_m3u8_url :: "env \<Rightarrow> state \<Rightarrow> (exn + string option) \<times> state" where
  "fetch_m3u8_url E s =
     (case send E \<lparr>req_method = GET, req_url = SOURCE_URL, req_headers = HEADERS,
                   req_json = None\<rparr> s of
        (Inl e, s') \<Rightarrow> if is_HTTPError e then (Inr None, s') else (Inl e, s')
      | (Inr response, s') \<Rightarrow> (Inr (re_search_m3u8 E (resp_text response)), s'))"

section \<open>\<open>get_playlist\<close>\<close>

text \<open>What a route answers with: a \<open>fastapi\<close> \<open>Response\<close>.\<close>

record http_response =
  status_code :: nat
  body :: string
  media_type :: string
  response_headers :: headers

subsection \<open>Normalising the cookies\<close>

text \<open>
  One element of the generator: \<open>f"{pair.split('=')[0].lstrip('_')}={pair.split('=')[1]}"\<close>.
\<close>

definition format_pair :: "string \<Rightarrow> exn + string" where
  "format_pair pair =
     (let name = str_lstrip (hd (str_split pair ''='')) CHR ''_''
      in case index (str_split pair ''='') 1 of
           Inl e \<Rightarrow> Inl e
         | Inr val \<Rightarrow> Inr (name @ ''='' @ val))"

text \<open>
  The generator \<open>... for pair in cookies.split("; ") if pair\<close> as \<open>join\<close> consumes it: the
  first pair that raises ends it.
\<close>

fun format_pairs :: "string list \<Rightarrow> exn + string list" where
  "format_pairs [] = Inr []"
| "format_pairs (pair # pairs) =
     (if pair = [] then format_pairs pairs
      else (case format_pair pair of
              Inl e \<Rightarrow> Inl e
            | Inr f \<Rightarrow> (case format_pairs pairs of Inl e \<Rightarrow> Inl e | Inr fs \<Rightarrow> Inr (f # fs))))"

definition unquoted_cookies :: "env \<Rightarrow> string \<Rightarrow> string" where
  "unquoted_cookies E cookies =
     str_replace (str_replace (unquote E cookies) ''%3B+'' ''; '') ''%3D'' ''=''"

definition normalize_cookies :: "env \<Rightarrow> string \<Rightarrow> exn + string" where
  "normalize_cookies E cookies =
     (case format_pairs (str_split (unquoted_cookies E cookies) ''; '') of
        Inl e \<Rightarrow> Inl e
      | Inr fs \<Rightarrow> Inr (str_join ''; '' fs))"

subsection \<open>Fetching the manifest, with the fallback to a fresh URL and fresh cookies\<close>

definition fetch_manifest ::
  "env \<Rightarrow> string \<Rightarrow> string \<Rightarrow> state \<Rightarrow> (exn + string \<times> string) \<times> state" where
  "fetch_manifest E url cookies s =
     (case fetch_resource E url cookies 3 s of
        (Inl e, s1) \<Rightarrow> (Inl e, s1)
      | (Inr (Some result), s1) \<Rightarrow> (Inr result, s1)
      | (Inr None, s1) \<Rightarrow>
          (case fetch_m3u8_url E s1 of
             (Inl e, s2) \<Rightarrow> (Inl e, s2)
           | (Inr m3u8_url, s2) \<Rightarrow>
               (case fetch_cookies E s2 of
                  (Inl e, s3) \<Rightarrow> (Inl e, s3)
                | (Inr cookies', s3) \<Rightarrow>
                    if \<not> truthy m3u8_url \<or> \<not> truthy cookies' then
                      (Inl (HTTPException 500 ''Could not fetch M3U8 URL or cookies''), s3)
                    else
                      (case fetch_resource E (case m3u8_url of None \<Rightarrow> [] | Some u \<Rightarrow> u)
                              (case cookies' of None \<Rightarrow> [] | Some c \<Rightarrow> c) 3 s3 of
                         (Inl e, s4) \<Rightarrow> (Inl e, s4)
                       | (Inr None, s4) \<Rightarrow> (Inl (HTTPException 500 ''Error fetching M3U8''), s4)
                       | (Inr (Some result), s4) \<Rightarrow> (Inr result, s4)))))"

subsection \<open>Rewriting the manifest\<close>

text \<open>
  The body of \<open>for i, line in enumerate(m3u8_lines)\<close>: the line that replaces
  \<open>m3u8_lines[i]\<close> and the entry the body stores in \<open>SEGMENT_MAP\<close>, if any. The body
  stores its entry last, so a body that raises has stored nothing.
\<close>

definition rewrite_line :: "env \<Rightarrow> string \<Rightarrow> string \<Rightarrow> exn + string \<times> (string \<times> string) option" where
  "rewrite_line E url line =
     (if startswith line ''#EXT-X-KEY'' \<and> str_in ''URI='' line then
        (case index (str_split line (''URI='' @ [DQ])) 1 of
           Inl e \<Rightarrow> Inl e
         | Inr rest \<Rightarrow>
             (let original_uri = hd (str_split rest [DQ]);
                  key_path = str_lstrip original_uri CHR ''/'';
                  new_uri = ''/'' @ key_path;
                  new_line = str_replace line original_uri new_uri
              in case urljoin E url original_uri of
                   Inl e \<Rightarrow> Inl e
                 | Inr full_key_url \<Rightarrow> Inr (new_line, Some (key_path, full_key_url))))
      else if startswith line ''https://'' then
        (let original_url = str_strip line;
             segment_name = str_replace (last (str_split original_url ''/'')) ''.js'' ''.ts'';
             new_url = ''/'' @ segment_name;
             direct_url = str_replace original_url ''https://corsproxy.io/?url='' []
         in if startswith direct_url ''https://flu.streamed.su'' then
              Inr (new_url, Some (segment_name, direct_url))
            else
              (let segment_name_base = str_replace segment_name ''.ts'' ''.js'';
                   direct_url = ''https://p2-panel.streamed.su/bucket-44677-gjnru5ktoa/''
                                 @ segment_name_base
               in Inr (new_url, Some (segment_name, direct_url))))
      else Inr (line, None))"

text \<open>
  The loop over the lines, on the map: it gives the rewritten lines, or the exception
  that ended it, and the map as the loop left it.
\<close>

fun rewrite_lines ::
  "env \<Rightarrow> string \<Rightarrow> string list \<Rightarrow> (string \<rightharpoonup> string)
    \<Rightarrow> (exn + string list) \<times> (string \<rightharpoonup> string)" where
  "rewrite_lines E url [] m = (Inr [], m)"
| "rewrite_lines E url (line # rest) m =
     (case rewrite_line E url line of
        Inl e \<Rightarrow> (Inl e, m)
      | Inr (new_line, entry) \<Rightarrow>
          (case rewrite_lines E url rest (case entry of None \<Rightarrow> m | Some (k, v) \<Rightarrow> m(k \<mapsto> v)) of
             (Inl e, m') \<Rightarrow> (Inl e, m')
           | (Inr new_lines, m') \<Rightarrow> (Inr (new_line # new_lines), m')))"

text \<open>
  Lines 159 to 190 of \<open>main.py\<close>: from the fetched bytes to the rewritten text. \<open>base_url\<close>
  is computed and never used, but computing it may raise.
\<close>

definition rewrite :: "env \<Rightarrow> string \<Rightarrow> string \<Rightarrow> state \<Rightarrow> (exn + string) \<times> state" where
  "rewrite E url m3u8_bytes s =
     (case decode_utf8 E m3u8_bytes of
        Inl e \<Rightarrow> (Inl e, s)
      | Inr m3u8_content \<Rightarrow>
          if \<not> str_in ''#EXTM3U'' m3u8_content then
            (Inl (HTTPException 500 ''Invalid M3U8 content''), s)
          else
            (let s1 = s\<lparr>SEGMENT_MAP := Map.empty\<rparr>;
                 m3u8_lines = str_splitlines m3u8_content
             in case urlparse E url of
                  Inl e \<Rightarrow> (Inl e, s1)
                | Inr (scheme, netloc) \<Rightarrow>
                    (let base_url = scheme @ ''://'' @ netloc
                     in case rewrite_lines E url m3u8_lines (SEGMENT_MAP s1) of
                          (Inl e, m) \<Rightarrow> (Inl e, s1\<lparr>SEGMENT_MAP := m\<rparr>)
                        | (Inr new_lines, m) \<Rightarrow>
                            (Inr (str_join [LF] new_lines), s1\<lparr>SEGMENT_MAP := m\<rparr>))))"

text \<open>The route: every exception of the \<open>try\<close> block becomes an \<open>HTTPException\<close> 500.\<close>

definition get_playlist :: "env \<Rightarrow> string \<Rightarrow> string \<Rightarrow> state \<Rightarrow> (exn + http_response) \<times> state" where
  "get_playlist E url cookies s =
     (case (case normalize_cookies E cookies of
              Inl e \<Rightarrow> (Inl e, s)
            | Inr cookies' \<Rightarrow>
                (case fetch_manifest E url cookies' s of
                   (Inl e, s1) \<Rightarrow> (Inl e, s1)
                 | (Inr (m3u8_bytes, content_type), s1) \<Rightarrow> rewrite E url m3u8_bytes s1)) of
        (Inl e, s') \<Rightarrow>
          (Inl (HTTPException 500 (''Error fetching M3U8: '' @ str_exn E e)), s')
      | (Inr m3u8_content, s') \<Rightarrow>
          (Inr \<lparr>status_code = 200, body = m3u8_content,
                media_type = ''application/vnd.apple.mpegurl'',
                response_headers = [(''Access-Control-Allow-Origin'', ''*'')]\<rparr>, s'))"

section \<open>\<open>get_resource\<close> and \<open>ping\<close>\<close>

text \<open>
  \<open>query_cookies\<close> is the \<open>cookies\<close> query parameter and \<open>range_header\<close> the \<open>Range\<close>
  header of the inbound request, \<open>None\<close> when absent. The dictionary \<open>headers\<close> is built
  as in the source; \<open>fetch_resource\<close> is then called with \<open>resource_url\<close> and \<open>cookies\<close>.
\<close>

definition get_resource ::
  "env \<Rightarrow> string \<Rightarrow> string option \<Rightarrow> string option \<Rightarrow> state \<Rightarrow> (exn + http_response) \<times> state" where
  "get_resource E path query_cookies range_header s =
     (let cookies = (case query_cookies of None \<Rightarrow> [] | Some c \<Rightarrow> c);
          resource_url =
            (if truthy (SEGMENT_MAP s path) then (case SEGMENT_MAP s path of None \<Rightarrow> [] | Some u \<Rightarrow> u)
             else ''https://rr.buytommy.top/'' @ str_replace path ''.ts'' ''.js'');
          headers = HEADERS;
          headers = (if cookies \<noteq> [] then dict_set headers ''Cookie'' (unquote E cookies) else headers);
          headers = (if truthy range_header
                     then dict_set headers ''Range'' (case range_header of None \<Rightarrow> [] | Some r \<Rightarrow> r)
                     else headers)
      in case (case fetch_resource E resource_url cookies 3 s of
                 (Inl e, s') \<Rightarrow> (Inl e, s')
               | (Inr None, s') \<Rightarrow> (Inl (HTTPException 500 ''Error fetching resource''), s')
               | (Inr (Some (content, content_type)), s') \<Rightarrow>
                   (let response_headers = [(''Access-Control-Allow-Origin'', ''*''),
                                            (''Accept-Ranges'', ''bytes'')]
                    in if truthy range_header then
                         (Inr \<lparr>status_code = 206, body = content, media_type = content_type,
                               response_headers =
                                 dict_set response_headers ''Content-Range''
                                   (''bytes 0-'' @ str_int (int (length content) - 1) @ ''/''
                                    @ str_int (int (length content)))\<rparr>, s')
                       else
                         (Inr \<lparr>status_code = 200, body = content, media_type = content_type,
                               response_headers = response_headers\<rparr>, s'))) of
           (Inl e, s') \<Rightarrow>
             (Inl (HTTPException 500 (''Error fetching resource: '' @ str_exn E e)), s')
         | (Inr r, s') \<Rightarrow> (Inr r, s'))"

definition ping :: "state \<Rightarrow> headers \<times> state" where
  "ping s = ([(''status'', ''ok'')], s)"

text \<open>One inbound request, served from start to end: the step of the server.\<close>

inductive serves :: "env \<Rightarrow> state \<Rightarrow> state \<Rightarrow> bool" for E :: env where
  serves_ping: "serves E s (snd (ping s))"
| serves_playlist: "serves E s (snd (get_playlist E url cookies s))"
| serves_resource: "serves E s (snd (get_resource E path query_cookies range_header s))"

inductive reachable :: "env \<Rightarrow> state \<Rightarrow> bool" for E :: env where
  reachable_initial: "reachable E initial_state"
| reachable_serves: "reachable E s \<Longrightarrow> serves E s s' \<Longrightarrow> reachable E s'"

section \<open>Sample environments\<close>

text \<open>
  To run the model on concrete requests, the library calls need concrete answers. The
  functions below give them for plain ASCII data, which is all the examples of this
  theory use: they agree with Python on the inputs they are run on here and make no
  claim beyond them (an escape of a byte from 128 on stays as it is, where \<open>urllib\<close>
  would decode UTF-8; \<open>sample_urljoin\<close> knows absolute URLs, absolute paths and plain
  relative paths only).
\<close>

definition hex_bits :: "char \<Rightarrow> (bool \<times> bool \<times> bool \<times> bool) option" where
  "hex_bits c =
     map_of
       [(CHR ''0'', (False, False, False, False)), (CHR ''1'', (True, False, False, False)),
        (CHR ''2'', (False, True, False, False)), (CHR ''3'', (True, True, False, False)),
        (CHR ''4'', (False, False, True, False)), (CHR ''5'', (True, False, True, False)),
        (CHR ''6'', (False, True, True, False)), (CHR ''7'', (True, True, True, False)),
        (CHR ''8'', (False, False, False, True)), (CHR ''9'', (True, False, False, True)),
        (CHR ''A'', (False, True, False, True)), (CHR ''B'', (True, True, False, True)),
        (CHR ''C'', (False, False, True, True)), (CHR ''D'', (True, False, True, True)),
        (CHR ''E'', (False, True, True, True)), (CHR ''F'', (True, True, True, True)),
        (CHR ''a'', (False, True, False, True)), (CHR ''b'', (True, True, False, True)),
        (CHR ''c'', (False, False, True, True)), (CHR ''d'', (True, False, True, True)),
        (CHR ''e'', (False, True, True, True)), (CHR ''f'', (True, True, True, True))] c"

fun sample_unquote :: "string \<Rightarrow> string" where
  "sample_unquote (c # h # l # cs) =
     (if c = CHR ''%'' then
        (case (hex_bits h, hex_bits l) of
           (Some (h0, h1, h2, False), Some (l0, l1, l2, l3)) \<Rightarrow>
             Char l0 l1 l2 l3 h0 h1 h2 False # sample_unquote cs
         | _ \<Rightarrow> c # sample_unquote (h # l # cs))
      else c # sample_unquote (h # l # cs))"
| "sample_unquote cs = cs"

text \<open>The part of a URL up to the end of its host, and up to its last \<open>/\<close>.\<close>

definition url_origin :: "string \<Rightarrow> string" where
  "url_origin u =
     (case str_split u ''/'' of
        scheme # blank # netloc # path \<Rightarrow> scheme @ ''//'' @ netloc
      | _ \<Rightarrow> u)"

definition url_directory :: "string \<Rightarrow> string" where
  "url_directory u = str_join ''/'' (butlast (str_split u ''/'')) @ ''/''"

definition sample_urljoin :: "string \<Rightarrow> string \<Rightarrow> exn + string" where
  "sample_urljoin base ref =
     (if startswith ref ''https://'' \<or> startswith ref ''http://'' then Inr ref
      else if startswith ref ''//'' then Inl (ValueError ''unsupported reference'')
      else if startswith ref ''/'' then Inr (url_origin base @ ref)
      else Inr (url_directory base @ ref))"

definition sample_urlparse :: "string \<Rightarrow> exn + string \<times> string" where
  "sample_urlparse u =
     (case str_split u ''/'' of
        scheme # blank # netloc # path \<Rightarrow> Inr (butlast scheme, netloc)
      | _ \<Rightarrow> Inr ([], []))"

definition sample_decode :: "string \<Rightarrow> exn + string" where
  "sample_decode b =
     (if list_all (\<lambda>c. (of_char c :: nat) < 128) b then Inr b
      else Inl (UnicodeDecodeError ''not ASCII''))"

fun sample_str_exn :: "exn \<Rightarrow> string" where
  "sample_str_exn (HTTPError msg) = msg"
| "sample_str_exn IndexError = ''list index out of range''"
| "sample_str_exn (ValueError msg) = msg"
| "sample_str_exn (UnicodeDecodeError msg) = msg"
| "sample_str_exn (HTTPException code detail) = str_int (int code) @ '': '' @ detail"
| "sample_str_exn (OtherException msg) = msg"

text \<open>\<open>offline\<close>: every outbound call fails with a transport error.\<close>

definition offline :: env where
  "offline =
     \<lparr>http = (\<lambda>log req. Inl (HTTPError ''All connection attempts failed'')),
      raise_for_status =
        (\<lambda>r. if resp_status_code r < 400 then None else Some (HTTPError ''error status'')),
      unquote = sample_unquote,
      urljoin = sample_urljoin,
      urlparse = sample_urlparse,
      decode_utf8 = sample_decode,
      re_search_m3u8 = (\<lambda>page. None),
      str_exn = sample_str_exn\<rparr>"

text \<open>
  \<open>upstream u payload\<close>: a GET of the URL \<open>u\<close> is answered with status 200 and the body
  \<open>payload\<close>, without a content type; every other call fails.
\<close>

definition upstream :: "string \<Rightarrow> string \<Rightarrow> env" where
  "upstream u payload =
     offline\<lparr>http :=
       (\<lambda>log req.
          if req_method req = GET \<and> req_url req = u then
            Inr \<lparr>resp_status_code = 200, resp_content = payload, resp_text = payload,
                 resp_headers_get = (\<lambda>name. None)\<rparr>
          else Inl (HTTPError ''All connection attempts failed''))\<rparr>"

text \<open>
  \<open>landing\<close>: only the landing page and the cookie endpoint answer. The page names the
  manifest \<open>https://down.example/live.m3u8\<close>, which does not answer, and the endpoint
  sets the cookie \<open>__ddg1_\<close>.
\<close>

definition landing :: env where
  "landing =
     offline\<lparr>http :=
       (\<lambda>log req.
          if req_method req = GET \<and> req_url req = SOURCE_URL then
            Inr \<lparr>resp_status_code = 200, resp_content = ''src=https://down.example/live.m3u8 '',
                 resp_text = ''src=https://down.example/live.m3u8 '',
                 resp_headers_get = (\<lambda>name. None)\<rparr>
          else if req_method req = POST \<and> req_url req = COOKIE_URL then
            Inr \<lparr>resp_status_code = 200, resp_content = [], resp_text = [],
                 resp_headers_get =
                   (\<lambda>name. if name = ''set-cookie'' then Some ''__ddg1_=abc; Path=/'' else None)\<rparr>
          else Inl (HTTPError ''All connection attempts failed'')),
       re_search_m3u8 :=
         (\<lambda>page. if page = ''src=https://down.example/live.m3u8 ''
                  then Some ''https://down.example/live.m3u8'' else None)\<rparr>"

section \<open>Notions the statements use\<close>

text \<open>
  An outbound call fails for \<open>fetch_resource\<close>: the call raises an \<open>httpx.HTTPError\<close>
  (a transport error), or it answers and \<open>raise_for_status\<close> raises one (a status that
  is not a success).
\<close>

definition attempt_fails :: "env \<Rightarrow> request list \<Rightarrow> request \<Rightarrow> bool" where
  "attempt_fails E log req =
     (case http E log req of
        Inl e \<Rightarrow> is_HTTPError e
      | Inr response \<Rightarrow>
          (case raise_for_status E response of None \<Rightarrow> False | Some e \<Rightarrow> is_HTTPError e))"

text \<open>The request \<open>fetch_resource\<close> sends to one candidate.\<close>

definition get_request :: "string \<Rightarrow> string \<Rightarrow> request" where
  "get_request source_url cookies =
     \<lparr>req_method = GET, req_url = source_url,
      req_headers = dict_set HEADERS ''Cookie'' cookies, req_json = None\<rparr>"

text \<open>The key under which the loop body stores an entry for a line, if it stores one.\<close>

definition stored_key :: "env \<Rightarrow> string \<Rightarrow> string \<Rightarrow> string option" where
  "stored_key E url line =
     (case rewrite_line E url line of
        Inr (new_line, Some (k, v)) \<Rightarrow> Some k
      | _ \<Rightarrow> None)"

text \<open>
  What \<open>get_resource\<close> hands to \<open>fetch_resource\<close>: the URL it resolves a path to, and
  the \<open>cookies\<close> query parameter, empty when absent.
\<close>

definition resolved_url :: "state \<Rightarrow> string \<Rightarrow> string" where
  "resolved_url s path =
     (if truthy (SEGMENT_MAP s path) then (case SEGMENT_MAP s path of None \<Rightarrow> [] | Some u \<Rightarrow> u)
      else ''https://rr.buytommy.top/'' @ str_replace path ''.ts'' ''.js'')"

definition supplied_cookies :: "string option \<Rightarrow> string" where
  "supplied_cookies query_cookies = (case query_cookies of None \<Rightarrow> [] | Some c \<Rightarrow> c)"

section \<open>Facts about the text operations\<close>

lemma str_split_at_nonempty: "str_split_at d ds s \<noteq> []"
  by (induction d ds s rule: str_split_at.induct) (auto split: list.splits)

lemma str_split_nonempty: "str_split s sep \<noteq> []"
  by (simp add: str_split_def str_split_at_nonempty split: list.splits)

lemma str_split_at_no_sep: "d \<notin> set s \<Longrightarrow> str_split_at d ds s = [s]"
  by (induction s) auto

text \<open>Splitting at a single character splits both sides of any occurrence.\<close>

lemma str_split_at_single_append:
  "str_split_at d [] (p @ d # r) = str_split_at d [] p @ str_split_at d [] r"
proof (induction p)
  case Nil
  then show ?case by simp
next
  case (Cons c p)
  then show ?case
    using str_split_at_nonempty[of d "[]" p]
    by (cases "str_split_at d [] p") auto
qed

lemma last_str_split_single:
  assumes "d \<notin> set r"
  shows "last (str_split (p @ d # r) [d]) = r"
  using assms
  by (simp add: str_split_def str_split_at_single_append str_split_at_no_sep)

text \<open>
  A separator that does not occur before the end of \<open>p\<close> followed by all but its last
  character occurs first right after \<open>p\<close>.
\<close>

lemma prefix_in_short:
  assumes "prefix (d # ds) (c # p @ (d # ds) @ r)"
  shows "prefix (d # ds) (c # p @ butlast (d # ds))"
proof -
  have "length (d # ds) \<le> length (c # p @ butlast (d # ds))" by simp
  moreover have "c # p @ (d # ds) @ r = (c # p @ butlast (d # ds)) @ (last (d # ds) # r)"
    using append_butlast_last_id[of "d # ds"]
    by (metis append.assoc append_Cons list.distinct(1) append_Nil)
  ultimately show ?thesis using assms
    by (metis prefix_length_prefix prefixI)
qed

lemma str_split_at_first:
  assumes "\<not> str_in (d # ds) (p @ butlast (d # ds))"
  shows "str_split_at d ds (p @ (d # ds) @ r) = p # str_split_at d ds r"
  using assms
proof (induction p)
  case Nil
  then show ?case by simp
next
  case (Cons c p)
  from Cons.prems have np: "\<not> prefix (d # ds) (c # p @ butlast (d # ds))"
    and ns: "\<not> str_in (d # ds) (p @ butlast (d # ds))" by auto
  from np have "\<not> prefix (d # ds) (c # p @ (d # ds) @ r)"
    using prefix_in_short[of d ds c p r] by blast
  with Cons.IH[OF ns] show ?case by simp
qed

lemma hd_str_split_at_other:
  "c \<noteq> d \<Longrightarrow> hd (str_split_at d ds (c # s)) = c # hd (str_split_at d ds s)"
  using str_split_at_nonempty[of d ds s]
  by (cases "str_split_at d ds s") auto

lemma str_in_nil: "str_in [] s"
  by (cases s) simp_all

lemma str_in_here: "str_in sub (sub @ r)"
  by (cases sub) (simp_all add: str_in_nil)

lemma str_in_append: "str_in sub (p @ sub @ r)"
  by (induction p) (simp_all add: str_in_here)

text \<open>Replacing a text by itself changes nothing.\<close>

lemma str_replace_at_same_aux: "new = d # ds \<Longrightarrow> str_replace_at d ds new s = s"
proof (induction d ds new s rule: str_replace_at.induct)
  case (1 d ds new)
  then show ?case by simp
next
  case (2 d ds new c cs)
  show ?case
  proof (cases "prefix (d # ds) (c # cs)")
    case True
    then obtain r where r: "c = d" "cs = ds @ r" by (auto simp: prefix_def)
    with 2 True show ?thesis by simp
  next
    case False
    with 2 show ?thesis by auto
  qed
qed

lemma str_replace_same: "old \<noteq> [] \<Longrightarrow> str_replace s old old = s"
  by (cases old) (simp_all add: str_replace_def str_replace_at_same_aux)

lemma str_strip_id:
  assumes "s \<noteq> []" "\<not> isspace (hd s)" "\<not> isspace (last s)"
  shows "str_strip s = s"
proof -
  have 1: "dropWhile isspace s = s"
    using assms by (simp add: dropWhile_eq_self_iff)
  have 2: "dropWhile isspace (rev s) = rev s"
    using assms by (simp add: dropWhile_eq_self_iff hd_rev)
  show ?thesis by (simp add: str_strip_def 1 2)
qed

section \<open>Facts about the rewriting loop\<close>

lemma rewrite_lines_append:
  "rewrite_lines E url (xs @ ys) m =
     (case rewrite_lines E url xs m of
        (Inl e, m') \<Rightarrow> (Inl e, m')
      | (Inr o1, m') \<Rightarrow>
          (case rewrite_lines E url ys m' of
             (Inl e, m'') \<Rightarrow> (Inl e, m'')
           | (Inr o2, m'') \<Rightarrow> (Inr (o1 @ o2), m'')))"
  by (induction xs arbitrary: m) (auto split: sum.splits prod.splits option.splits)

lemma rewrite_lines_length:
  "rewrite_lines E url ls m = (Inr out, m') \<Longrightarrow> length out = length ls"
  by (induction ls arbitrary: m out) (auto split: sum.splits prod.splits option.splits)

lemma rewrite_lines_frame:
  "Some k \<notin> set (map (stored_key E url) ls) \<Longrightarrow> snd (rewrite_lines E url ls m) k = m k"
proof (induction ls arbitrary: m)
  case Nil
  then show ?case by simp
next
  case (Cons l ls)
  then have nk: "stored_key E url l \<noteq> Some k"
    and rest: "Some k \<notin> set (map (stored_key E url) ls)" by auto
  show ?case
  proof (cases "rewrite_line E url l")
    case (Inl e)
    then show ?thesis by simp
  next
    case (Inr r)
    obtain nl entry where r: "r = (nl, entry)" by (cases r)
    let ?m = "case entry of None \<Rightarrow> m | Some (k, v) \<Rightarrow> m(k \<mapsto> v)"
    have "?m k = m k"
      using nk Inr r by (auto simp: stored_key_def split: option.splits)
    moreover have "snd (rewrite_lines E url ls ?m) k = ?m k"
      using Cons.IH[OF rest] .
    ultimately show ?thesis
      using Inr r by (auto split: sum.splits prod.splits)
  qed
qed

lemma rewrite_lines_at:
  assumes run: "rewrite_lines E url (before @ line # after) m = (Inr out, m')"
    and frame: "Some k \<notin> set (map (stored_key E url) after)"
    and line: "rewrite_line E url line = Inr (new_line, Some (k, v))"
  shows "out ! length before = new_line \<and> m' k = Some v"
proof -
  obtain o1 m1 where 1: "rewrite_lines E url before m = (Inr o1, m1)"
    using run by (auto simp: rewrite_lines_append split: sum.splits prod.splits)
  obtain o2 where 2: "rewrite_lines E url after (m1(k \<mapsto> v)) = (Inr o2, m')" and out: "out = o1 @ new_line # o2"
    using run 1 line by (auto simp: rewrite_lines_append split: sum.splits prod.splits)
  have "length o1 = length before" using 1 by (rule rewrite_lines_length)
  then have "out ! length before = new_line" using out by (simp add: nth_append)
  moreover have "m' k = Some v"
    using rewrite_lines_frame[OF frame, of "m1(k \<mapsto> v)"] 2 by simp
  ultimately show ?thesis by simp
qed

lemma rewrite_line_key_general:
  assumes "startswith line ''#EXT-X-KEY''" "str_in ''URI='' line"
    and "sep = ''URI='' @ [DQ]" "str_split line sep = p # q # qs"
    and "hd (str_split q [DQ]) = uri"
  shows "rewrite_line E url line =
           (case urljoin E url uri of
              Inl e \<Rightarrow> Inl e
            | Inr full_key_url \<Rightarrow>
                Inr (str_replace line uri (''/'' @ str_lstrip uri CHR ''/''),
                     Some (str_lstrip uri CHR ''/'', full_key_url)))"
  using assms by (simp add: rewrite_line_def index_def Let_def split: sum.splits)

lemma rewrite_line_key:
  assumes first: "\<not> str_in (''URI='' @ [DQ]) (''#EXT-X-KEY'' @ pre @ ''URI='')"
    and line: "line = ''#EXT-X-KEY'' @ pre @ ''URI='' @ [DQ] @ ''/a/b/key.bin'' @ [DQ] @ post"
  shows "rewrite_line E url line =
           (case urljoin E url ''/a/b/key.bin'' of
              Inl e \<Rightarrow> Inl e
            | Inr full_key_url \<Rightarrow> Inr (line, Some (''a/b/key.bin'', full_key_url)))"
proof -
  define sep where "sep = ''URI='' @ [DQ]"
  define rest where "rest = ''/a/b/key.bin'' @ [DQ] @ post"
  define tail where "tail = hd (str_split post sep)"
  have sw: "startswith line ''#EXT-X-KEY''"
    by (simp add: startswith_def line)
  have "str_in ''URI='' ((''#EXT-X-KEY'' @ pre) @ ''URI='' @ ([DQ] @ rest))"
    by (rule str_in_append)
  then have uri: "str_in ''URI='' line"
    by (simp add: line rest_def)
  have "str_split_at CHR ''U'' (''RI='' @ [DQ]) ((''#EXT-X-KEY'' @ pre) @ (CHR ''U'' # ''RI='' @ [DQ]) @ rest)
          = (''#EXT-X-KEY'' @ pre) # str_split_at CHR ''U'' (''RI='' @ [DQ]) rest"
    by (rule str_split_at_first) (use first in simp)
  then have sp: "str_split line sep = (''#EXT-X-KEY'' @ pre) # str_split rest sep"
    by (simp add: str_split_def line rest_def sep_def)
  have hd: "hd (str_split rest sep) = ''/a/b/key.bin'' @ [DQ] @ tail"
    by (simp add: str_split_def hd_str_split_at_other rest_def sep_def tail_def del: str_split_at.simps)
  obtain qs where qs: "str_split rest sep = (''/a/b/key.bin'' @ [DQ] @ tail) # qs"
    using hd str_split_nonempty[of rest sep] by (cases "str_split rest sep") auto
  have "str_split_at DQ [] (''/a/b/key.bin'' @ (DQ # []) @ tail) = ''/a/b/key.bin'' # str_split_at DQ [] tail"
    by (rule str_split_at_first) simp
  then have uri_val: "hd (str_split (''/a/b/key.bin'' @ [DQ] @ tail) [DQ]) = ''/a/b/key.bin''"
    by (simp add: str_split_def)
  have rep: "str_replace line ''/a/b/key.bin'' ''/a/b/key.bin'' = line"
    by (rule str_replace_same) simp
  have strip: "str_lstrip ''/a/b/key.bin'' CHR ''/'' = ''a/b/key.bin''"
    by (simp add: str_lstrip_def)
  have "''/'' @ str_lstrip ''/a/b/key.bin'' CHR ''/'' = ''/a/b/key.bin''"
    by (simp add: strip)
  then show ?thesis
    using rewrite_line_key_general[OF sw uri sep_def sp[unfolded qs] uri_val, of E url]
    by (simp only: rep strip)
qed


lemma rewrite_line_segment:
  assumes line: "line = ''https://'' @ host @ ''/seg123.js''"
  shows "rewrite_line E url line =
           Inr (''/seg123.ts'',
                Some (''seg123.ts'',
                      if startswith (str_replace line ''https://corsproxy.io/?url='' []) ''https://flu.streamed.su''
                      then str_replace line ''https://corsproxy.io/?url='' []
                      else ''https://p2-panel.streamed.su/bucket-44677-gjnru5ktoa/seg123.js''))"
proof -
  have nokey: "\<not> startswith line ''#EXT-X-KEY''"
    by (simp add: startswith_def line)
  have https: "startswith line ''https://''"
    by (simp add: startswith_def line)
  have "line \<noteq> []" "hd line = CHR ''h''" "last line = CHR ''s''"
    by (simp_all add: line)
  then have strip: "str_strip line = line"
    by (intro str_strip_id) (simp_all add: isspace_def)
  have "last (str_split ((''https://'' @ host) @ CHR ''/'' # ''seg123.js'') ''/'') = ''seg123.js''"
    by (rule last_str_split_single) simp
  then have name: "last (str_split line ''/'') = ''seg123.js''"
    by (simp add: line)
  have ts: "str_replace ''seg123.js'' ''.js'' ''.ts'' = ''seg123.ts''"
    by (simp add: str_replace_def)
  have js: "str_replace ''seg123.ts'' ''.ts'' ''.js'' = ''seg123.js''"
    by (simp add: str_replace_def)
  show ?thesis
  proof (cases "startswith (str_replace line ''https://corsproxy.io/?url='' []) ''https://flu.streamed.su''")
    case True
    then show ?thesis
      unfolding rewrite_line_def
      by (simp only: nokey https strip name ts Let_def simp_thms if_True if_False append_Cons append_Nil)
  next
    case False
    then show ?thesis
      unfolding rewrite_line_def
      by (simp only: nokey https strip name ts js Let_def simp_thms if_True if_False append_Cons append_Nil)
  qed
qed

section \<open>Facts about the fetcher\<close>

text \<open>Three failed attempts on one candidate, when every outbound call fails.\<close>

lemma get_checked_fails:
  assumes "attempt_fails E (sent s) \<lparr>req_method = GET, req_url = u, req_headers = hs, req_json = None\<rparr>"
  shows "\<exists>e. is_HTTPError e \<and> get_checked E u hs s =
           (Inl e, s\<lparr>sent := sent s @ [\<lparr>req_method = GET, req_url = u, req_headers = hs, req_json = None\<rparr>]\<rparr>)"
  using assms
  by (auto simp: attempt_fails_def get_checked_def send_def split: sum.splits option.splits)

lemma upto_1_3: "[1..3::int] = [1, 2, 3]"
  by (simp add: upto.simps)

lemma attempt_loop_fails:
  assumes "\<And>log. attempt_fails E log \<lparr>req_method = GET, req_url = u, req_headers = hs, req_json = None\<rparr>"
  shows "attempt_loop E u hs 3 [1..3] s =
           (Inr None, s\<lparr>sent := sent s @ replicate 3 \<lparr>req_method = GET, req_url = u, req_headers = hs, req_json = None\<rparr>\<rparr>)"
proof -
  let ?r = "\<lparr>req_method = GET, req_url = u, req_headers = hs, req_json = None\<rparr>"
  obtain e1 where 1: "is_HTTPError e1" "get_checked E u hs s = (Inl e1, s\<lparr>sent := sent s @ [?r]\<rparr>)"
    using get_checked_fails[of E s u hs, OF assms] by blast
  obtain e2 where 2: "is_HTTPError e2"
    "get_checked E u hs (s\<lparr>sent := sent s @ [?r]\<rparr>) = (Inl e2, s\<lparr>sent := sent s @ [?r, ?r]\<rparr>)"
    using get_checked_fails[of E "s\<lparr>sent := sent s @ [?r]\<rparr>" u hs, OF assms] by auto
  obtain e3 where 3: "is_HTTPError e3"
    "get_checked E u hs (s\<lparr>sent := sent s @ [?r, ?r]\<rparr>) = (Inl e3, s\<lparr>sent := sent s @ [?r, ?r, ?r]\<rparr>)"
    using get_checked_fails[of E "s\<lparr>sent := sent s @ [?r, ?r]\<rparr>" u hs, OF assms] by auto
  show ?thesis
    by (simp add: upto_1_3 1 2 3 numeral_3_eq_3)
qed

text \<open>
  Only \<open>fetch_cookies\<close> writes \<open>CACHED_COOKIES\<close>, and only the rewriting writes
  \<open>SEGMENT_MAP\<close>: what each operation leaves as it was.
\<close>

lemma send_globals:
  "send E req s = (r, s') \<Longrightarrow> SEGMENT_MAP s' = SEGMENT_MAP s \<and> CACHED_COOKIES s' = CACHED_COOKIES s"
  by (auto simp: send_def)

lemma get_checked_globals:
  "get_checked E u hs s = (r, s') \<Longrightarrow> SEGMENT_MAP s' = SEGMENT_MAP s \<and> CACHED_COOKIES s' = CACHED_COOKIES s"
  by (auto simp: get_checked_def send_def split: sum.splits option.splits)

lemma attempt_loop_globals:
  "attempt_loop E u hs retries as s = (r, s') \<Longrightarrow>
     SEGMENT_MAP s' = SEGMENT_MAP s \<and> CACHED_COOKIES s' = CACHED_COOKIES s"
proof (induction as arbitrary: s)
  case Nil
  then show ?case by simp
next
  case (Cons a as)
  obtain r1 s1 where g: "get_checked E u hs s = (r1, s1)" by (cases "get_checked E u hs s")
  from get_checked_globals[OF g] Cons g show ?case
    by (auto split: sum.splits if_splits)
qed

lemma source_loop_globals:
  "source_loop E hs retries us s = (r, s') \<Longrightarrow>
     SEGMENT_MAP s' = SEGMENT_MAP s \<and> CACHED_COOKIES s' = CACHED_COOKIES s"
proof (induction us arbitrary: s)
  case Nil
  then show ?case by simp
next
  case (Cons u us)
  obtain r1 s1 where a: "attempt_loop E u hs retries [1..retries] s = (r1, s1)"
    by (cases "attempt_loop E u hs retries [1..retries] s")
  from attempt_loop_globals[OF a] Cons a show ?case
    by (auto split: sum.splits option.splits)
qed

lemma fetch_resource_globals:
  "fetch_resource E url cookies retries s = (r, s') \<Longrightarrow>
     SEGMENT_MAP s' = SEGMENT_MAP s \<and> CACHED_COOKIES s' = CACHED_COOKIES s"
  unfolding fetch_resource_def by (rule source_loop_globals)

lemma fetch_m3u8_url_globals:
  "fetch_m3u8_url E s = (r, s') \<Longrightarrow>
     SEGMENT_MAP s' = SEGMENT_MAP s \<and> CACHED_COOKIES s' = CACHED_COOKIES s"
  by (auto simp: fetch_m3u8_url_def send_def split: sum.splits if_splits)

lemma fetch_cookies_cached:
  "truthy (CACHED_COOKIES s) \<Longrightarrow> fetch_cookies E s = (Inr (CACHED_COOKIES s), s)"
  by (simp add: fetch_cookies_def)

lemma fetch_cookies_globals:
  assumes "fetch_cookies E s = (r, s')"
  shows "SEGMENT_MAP s' = SEGMENT_MAP s"
    and "truthy (CACHED_COOKIES s) \<Longrightarrow> CACHED_COOKIES s' = CACHED_COOKIES s"
    and "CACHED_COOKIES s \<noteq> Some [] \<Longrightarrow> CACHED_COOKIES s' \<noteq> Some []"
  using assms
  by (auto simp: fetch_cookies_def send_def Let_def split: sum.splits if_splits)

lemma fetch_manifest_globals:
  assumes "fetch_manifest E url cookies s = (r, s')"
  shows "SEGMENT_MAP s' = SEGMENT_MAP s"
    and "truthy (CACHED_COOKIES s) \<Longrightarrow> CACHED_COOKIES s' = CACHED_COOKIES s"
    and "CACHED_COOKIES s \<noteq> Some [] \<Longrightarrow> CACHED_COOKIES s' \<noteq> Some []"
proof -
  obtain r1 s1 where 1: "fetch_resource E url cookies 3 s = (r1, s1)"
    by (cases "fetch_resource E url cookies 3 s")
  obtain r2 s2 where 2: "fetch_m3u8_url E s1 = (r2, s2)" by (cases "fetch_m3u8_url E s1")
  obtain r3 s3 where 3: "fetch_cookies E s2 = (r3, s3)" by (cases "fetch_cookies E s2")
  obtain r4 s4 where 4: "fetch_resource E (case projr r2 of None \<Rightarrow> [] | Some u \<Rightarrow> u)
       (case projr r3 of None \<Rightarrow> [] | Some c \<Rightarrow> c) 3 s3 = (r4, s4)"
    by (cases "fetch_resource E (case projr r2 of None \<Rightarrow> [] | Some u \<Rightarrow> u)
       (case projr r3 of None \<Rightarrow> [] | Some c \<Rightarrow> c) 3 s3")
  note g = fetch_resource_globals[OF 1] fetch_m3u8_url_globals[OF 2] fetch_cookies_globals[OF 3]
    fetch_resource_globals[OF 4]
  have s': "s' = s1 \<or> s' = s2 \<or> s' = s3 \<or> s' = s4"
    using assms 1 2 3 4
    by (auto simp: fetch_manifest_def split: sum.splits option.splits if_splits)
  show "SEGMENT_MAP s' = SEGMENT_MAP s" using s' g by auto
  show "CACHED_COOKIES s' = CACHED_COOKIES s" if "truthy (CACHED_COOKIES s)"
    using s' g that by auto
  show "CACHED_COOKIES s' \<noteq> Some []" if "CACHED_COOKIES s \<noteq> Some []"
    using s' g that by auto
qed

lemma rewrite_cached: "rewrite E url b s = (r, s') \<Longrightarrow> CACHED_COOKIES s' = CACHED_COOKIES s"
  by (auto simp: rewrite_def Let_def split: sum.splits if_splits prod.splits)

lemma get_playlist_cached:
  assumes "get_playlist E url cookies s = (r, s')"
  shows "truthy (CACHED_COOKIES s) \<Longrightarrow> CACHED_COOKIES s' = CACHED_COOKIES s"
    and "CACHED_COOKIES s \<noteq> Some [] \<Longrightarrow> CACHED_COOKIES s' \<noteq> Some []"
proof -
  show "CACHED_COOKIES s' = CACHED_COOKIES s" if t: "truthy (CACHED_COOKIES s)"
  proof (cases "normalize_cookies E cookies")
    case (Inl e)
    with assms show ?thesis by (auto simp: get_playlist_def)
  next
    case (Inr ck)
    obtain r1 s1 where 1: "fetch_manifest E url ck s = (r1, s1)" by (cases "fetch_manifest E url ck s")
    obtain r2 s2 where 2: "rewrite E url (fst (projr r1)) s1 = (r2, s2)"
      by (cases "rewrite E url (fst (projr r1)) s1")
    have "s' = s1 \<or> s' = s2"
      using assms Inr 1 2 by (auto simp: get_playlist_def split: sum.splits prod.splits)
    then show ?thesis
      using fetch_manifest_globals(2)[OF 1 t] rewrite_cached[OF 2] by auto
  qed
  show "CACHED_COOKIES s' \<noteq> Some []" if t: "CACHED_COOKIES s \<noteq> Some []"
  proof (cases "normalize_cookies E cookies")
    case (Inl e)
    with assms t show ?thesis by (auto simp: get_playlist_def)
  next
    case (Inr ck)
    obtain r1 s1 where 1: "fetch_manifest E url ck s = (r1, s1)" by (cases "fetch_manifest E url ck s")
    obtain r2 s2 where 2: "rewrite E url (fst (projr r1)) s1 = (r2, s2)"
      by (cases "rewrite E url (fst (projr r1)) s1")
    have "s' = s1 \<or> s' = s2"
      using assms Inr 1 2 by (auto simp: get_playlist_def split: sum.splits prod.splits)
    then show ?thesis
      using fetch_manifest_globals(3)[OF 1 t] rewrite_cached[OF 2] by auto
  qed
qed

lemma get_resource_globals:
  assumes "get_resource E path qc rh s = (r, s')"
  shows "SEGMENT_MAP s' = SEGMENT_MAP s \<and> CACHED_COOKIES s' = CACHED_COOKIES s"
proof -
  let ?u = "if truthy (SEGMENT_MAP s path) then (case SEGMENT_MAP s path of None \<Rightarrow> [] | Some u \<Rightarrow> u)
             else ''https://rr.buytommy.top/'' @ str_replace path ''.ts'' ''.js''"
  let ?c = "case qc of None \<Rightarrow> [] | Some c \<Rightarrow> c"
  obtain r1 s1 where 1: "fetch_resource E ?u ?c 3 s = (r1, s1)" by (cases "fetch_resource E ?u ?c 3 s")
  have "s' = s1"
    using assms 1 by (auto simp: get_resource_def Let_def split: sum.splits option.splits prod.splits if_splits)
  with fetch_resource_globals[OF 1] show ?thesis by simp
qed

lemma serves_cached:
  assumes "serves E s s'"
  shows "truthy (CACHED_COOKIES s) \<Longrightarrow> CACHED_COOKIES s' = CACHED_COOKIES s"
    and "CACHED_COOKIES s \<noteq> Some [] \<Longrightarrow> CACHED_COOKIES s' \<noteq> Some []"
  using assms
proof (induction rule: serves.induct)
  case (serves_ping s)
  { case 1 then show ?case by (simp add: ping_def) }
  { case 2 then show ?case by (simp add: ping_def) }
next
  case (serves_playlist s url cookies)
  { case 1 then show ?case using get_playlist_cached(1)[OF surjective_pairing] by blast }
  { case 2 then show ?case using get_playlist_cached(2)[OF surjective_pairing] by blast }
next
  case (serves_resource s path qc rh)
  { case 1 then show ?case using get_resource_globals[OF surjective_pairing] by metis }
  { case 2 then show ?case using get_resource_globals[OF surjective_pairing] by metis }
qed

lemma reachable_cached: "reachable E s \<Longrightarrow> CACHED_COOKIES s \<noteq> Some []"
  by (induction rule: reachable.induct) (auto simp: initial_state_def dest: serves_cached(2))

lemma serves_star_cached:
  "(serves E)\<^sup>*\<^sup>* s s' \<Longrightarrow> truthy (CACHED_COOKIES s) \<Longrightarrow> CACHED_COOKIES s' = CACHED_COOKIES s"
  by (induction rule: rtranclp_induct) (auto dest: serves_cached(1))

section \<open>Facts about the cookie normalisation\<close>

lemma format_pair_no_eq: "CHR ''='' \<notin> set pair \<Longrightarrow> format_pair pair = Inl IndexError"
  by (simp add: format_pair_def str_split_def str_split_at_no_sep index_def)

lemma format_pair_raises: "format_pair pair = Inl e \<Longrightarrow> e = IndexError"
  by (auto simp: format_pair_def index_def Let_def split: if_splits)

lemma format_pairs_raises:
  "pair \<in> set pairs \<Longrightarrow> pair \<noteq> [] \<Longrightarrow> CHR ''='' \<notin> set pair \<Longrightarrow> format_pairs pairs = Inl IndexError"
proof (induction pairs)
  case Nil
  then show ?case by simp
next
  case (Cons p ps)
  show ?case
  proof (cases "p = pair")
    case True
    with Cons.prems show ?thesis by (simp add: format_pair_no_eq)
  next
    case False
    with Cons have "format_pairs ps = Inl IndexError" by simp
    then show ?thesis
      by (auto split: sum.splits dest: format_pair_raises)
  qed
qed

section \<open>Running the model\<close>

text \<open>
  The definitions the simplifier unfolds to run the model on a concrete request, and a
  form of \<open>endswith\<close> that it can decide on literals.
\<close>

lemma endswith_rev: "endswith s p = prefix (rev p) (rev s)"
  by (simp add: endswith_def suffix_to_prefix)

lemmas text_defs = startswith_def endswith_rev str_split_def str_replace_def str_lstrip_def
  str_strip_def isspace_def str_splitlines_def is_line_end_def index_def

lemmas route_defs = get_playlist_def normalize_cookies_def unquoted_cookies_def format_pair_def
  fetch_manifest_def fetch_resource_def sources_def upto_1_3 get_checked_def send_def
  fetch_m3u8_url_def fetch_cookies_def truthy_def formatted_cookies_def cookie_dict_def
  cookie_pair_def required_cookies_def SOURCE_URL_def COOKIE_URL_def resolved_content_type_def
  get_resource_def rewrite_def rewrite_line_def get_request_def initial_state_def str_int_def

lemmas sample_defs = offline_def upstream_def landing_def sample_decode_def sample_urljoin_def
  sample_urlparse_def url_origin_def url_directory_def hex_bits_def

section \<open>Facts about what is sent\<close>

text \<open>
  Every request that \<open>fetch_resource\<close> sends carries the headers \<open>fetch_resource\<close>
  built itself: the shared headers and the cookie. Whatever \<open>get_resource\<close> put into
  its own \<open>headers\<close> dictionary is not among them.
\<close>

lemma get_checked_sent:
  "snd (get_checked E u hs s) =
     s\<lparr>sent := sent s @ [\<lparr>req_method = GET, req_url = u, req_headers = hs, req_json = None\<rparr>]\<rparr>"
  by (simp add: get_checked_def send_def split: sum.splits option.splits)

lemma attempt_loop_sent:
  "attempt_loop E u hs retries as s = (r, s') \<Longrightarrow>
     \<exists>rs. sent s' = sent s @ rs \<and> list_all (\<lambda>q. req_headers q = hs) rs"
proof (induction as arbitrary: s)
  case Nil
  then show ?case by simp
next
  case (Cons a as)
  let ?q = "\<lparr>req_method = GET, req_url = u, req_headers = hs, req_json = None\<rparr>"
  obtain r1 where g: "get_checked E u hs s = (r1, s\<lparr>sent := sent s @ [?q]\<rparr>)"
    using get_checked_sent[of E u hs s] by (cases "get_checked E u hs s") simp
  show ?case
  proof (cases "s' = s\<lparr>sent := sent s @ [?q]\<rparr>")
    case True
    then show ?thesis by simp
  next
    case False
    with Cons.prems g have "attempt_loop E u hs retries as (s\<lparr>sent := sent s @ [?q]\<rparr>) = (r, s')"
      by (auto split: sum.splits if_splits)
    from Cons.IH[OF this] show ?thesis by auto
  qed
qed

lemma source_loop_sent:
  "source_loop E hs retries us s = (r, s') \<Longrightarrow>
     \<exists>rs. sent s' = sent s @ rs \<and> list_all (\<lambda>q. req_headers q = hs) rs"
proof (induction us arbitrary: s)
  case Nil
  then show ?case by simp
next
  case (Cons u us)
  obtain r1 s1 where a: "attempt_loop E u hs retries [1..retries] s = (r1, s1)"
    by (cases "attempt_loop E u hs retries [1..retries] s")
  from attempt_loop_sent[OF a] obtain rs1 where 1: "sent s1 = sent s @ rs1"
    "list_all (\<lambda>q. req_headers q = hs) rs1" by blast
  show ?case
  proof (cases "s' = s1")
    case True
    with 1 show ?thesis by blast
  next
    case False
    with Cons.prems a have "source_loop E hs retries us s1 = (r, s')"
      by (auto split: sum.splits option.splits)
    from Cons.IH[OF this] 1 show ?thesis by auto
  qed
qed

lemma get_resource_sent:
  "\<exists>rs. sent (snd (get_resource E path query_cookies range_header s)) = sent s @ rs \<and>
        list_all (\<lambda>q. req_headers q = dict_set HEADERS ''Cookie'' (supplied_cookies query_cookies)) rs \<and>
        map_of (dict_set HEADERS ''Cookie'' (supplied_cookies query_cookies)) ''Range'' = None"
proof -
  obtain r1 s1 where 1: "fetch_resource E (resolved_url s path) (supplied_cookies query_cookies) 3 s = (r1, s1)"
    by (cases "fetch_resource E (resolved_url s path) (supplied_cookies query_cookies) 3 s")
  have "snd (get_resource E path query_cookies range_header s) = s1"
    using 1 by (auto simp: get_resource_def Let_def resolved_url_def supplied_cookies_def
        split: sum.splits option.splits prod.splits)
  moreover have "map_of (dict_set HEADERS ''Cookie'' c) ''Range'' = None" for c
    by (simp add: HEADERS_def)
  ultimately show ?thesis
    using source_loop_sent[OF 1[unfolded fetch_resource_def]] by auto
qed

text \<open>
  A run of the rewriting that returns a text has decoded the bytes, found the marker,
  and taken the loop over all lines from the empty map.
\<close>

lemma rewrite_run:
  assumes "rewrite E url m3u8_bytes s = (Inr m3u8_text, s')"
    and "decode_utf8 E m3u8_bytes = Inr m3u8_content"
  shows "\<exists>new_lines. rewrite_lines E url (str_splitlines m3u8_content) Map.empty = (Inr new_lines, SEGMENT_MAP s')
           \<and> m3u8_text = str_join [LF] new_lines"
  using assms by (auto simp: rewrite_def Let_def split: if_splits sum.splits prod.splits)

section \<open>The claims\<close>

subsection \<open>C1: what the resource route hands to the fetcher\<close>

text \<open>
  C1 says that the resource route delegates to the fetcher with the resolved URL and
  the URL-decoded cookie string, and that a \<open>Range\<close> header of the inbound request is
  forwarded in the headers of the outbound request. The code builds such headers and
  then drops them. A request for \<open>seg1.ts\<close> with the cookies \<open>a%3D1\<close> and the header
  \<open>Range: bytes=0-3\<close>, to an upstream that answers, is served with 206, and the one
  outbound request that was sent has the shared headers and \<open>Cookie: a%3D1\<close>: no
  \<open>Range\<close>, and the cookie string as supplied, not its decoding \<open>a=1\<close>.
\<close>

theorem range_header_dropped:
  "get_resource (upstream ''https://rr.buytommy.top/seg1.js'' ''0123456789'') ''seg1.ts''
     (Some ''a%3D1'') (Some ''bytes=0-3'') initial_state =
     (Inr \<lparr>status_code = 206, body = ''0123456789'', media_type = ''video/mp2t'',
           response_headers = [(''Access-Control-Allow-Origin'', ''*''), (''Accept-Ranges'', ''bytes''),
                               (''Content-Range'', ''bytes 0-9/10'')]\<rparr>,
      initial_state\<lparr>sent :=
        [\<lparr>req_method = GET, req_url = ''https://rr.buytommy.top/seg1.js'',
          req_headers = HEADERS @ [(''Cookie'', ''a%3D1'')], req_json = None\<rparr>]\<rparr>)
   \<and> map_of (HEADERS @ [(''Cookie'', ''a%3D1'')]) ''Range'' = None
   \<and> unquote (upstream ''https://rr.buytommy.top/seg1.js'' ''0123456789'') ''a%3D1'' = ''a=1''"
proof -
  have h: "dict_set HEADERS ''Cookie'' ''a%3D1'' = HEADERS @ [(''Cookie'', ''a%3D1'')]"
    by (simp add: HEADERS_def)
  have "map_of (HEADERS @ [(''Cookie'', ''a%3D1'')]) ''Range'' = None"
    by (simp add: HEADERS_def)
  moreover have "unquote (upstream ''https://rr.buytommy.top/seg1.js'' ''0123456789'') ''a%3D1'' = ''a=1''"
    by (simp add: sample_defs)
  moreover have "get_resource (upstream ''https://rr.buytommy.top/seg1.js'' ''0123456789'') ''seg1.ts''
     (Some ''a%3D1'') (Some ''bytes=0-3'') initial_state =
     (Inr \<lparr>status_code = 206, body = ''0123456789'', media_type = ''video/mp2t'',
           response_headers = [(''Access-Control-Allow-Origin'', ''*''), (''Accept-Ranges'', ''bytes''),
                               (''Content-Range'', ''bytes 0-9/10'')]\<rparr>,
      initial_state\<lparr>sent :=
        [\<lparr>req_method = GET, req_url = ''https://rr.buytommy.top/seg1.js'',
          req_headers = dict_set HEADERS ''Cookie'' ''a%3D1'', req_json = None\<rparr>]\<rparr>)"
    by (simp add: route_defs sample_defs text_defs Let_def)
  ultimately show ?thesis by (simp only: h simp_thms)
qed

subsection \<open>C2: a direct-URL line\<close>

text \<open>
  C2, as amended. For every manifest line \<open>https://host/seg123.js\<close> the loop body
  replaces the line by \<open>/seg123.ts\<close> and stores, under \<open>seg123.ts\<close>, the original URL
  without the CORS-proxy prefix when that URL begins with the text
  \<open>https://flu.streamed.su\<close>, and otherwise the fixed-bucket URL on the panel host
  with the name \<open>seg123.js\<close>. In every run of the rewriting that returns a text, the
  line at that place of the output is \<open>/seg123.ts\<close>, and the Segment Map holds that
  entry afterwards unless a later line stored another one under the same name.
\<close>

theorem segment_line_rewritten:
  assumes line: "line = ''https://'' @ host @ ''/seg123.js''"
    and direct: "direct_url = str_replace line ''https://corsproxy.io/?url='' []"
    and target: "target = (if startswith direct_url ''https://flu.streamed.su'' then direct_url
                           else ''https://p2-panel.streamed.su/bucket-44677-gjnru5ktoa/seg123.js'')"
  shows "rewrite_line E url line = Inr (''/seg123.ts'', Some (''seg123.ts'', target))
       \<and> (\<forall>m3u8_bytes m3u8_content before after s m3u8_text s'.
            decode_utf8 E m3u8_bytes = Inr m3u8_content \<and>
            str_splitlines m3u8_content = before @ line # after \<and>
            rewrite E url m3u8_bytes s = (Inr m3u8_text, s') \<longrightarrow>
            (\<exists>new_lines.
               m3u8_text = str_join [LF] new_lines \<and>
               length new_lines = length (before @ line # after) \<and>
               new_lines ! length before = ''/seg123.ts'' \<and>
               (Some ''seg123.ts'' \<notin> set (map (stored_key E url) after) \<longrightarrow>
                  SEGMENT_MAP s' ''seg123.ts'' = Some target)))"
proof -
  have body: "rewrite_line E url line = Inr (''/seg123.ts'', Some (''seg123.ts'', target))"
    using rewrite_line_segment[OF line, of E url] by (simp add: direct target)
  have "\<exists>new_lines.
          m3u8_text = str_join [LF] new_lines \<and>
          length new_lines = length (before @ line # after) \<and>
          new_lines ! length before = ''/seg123.ts'' \<and>
          (Some ''seg123.ts'' \<notin> set (map (stored_key E url) after) \<longrightarrow>
             SEGMENT_MAP s' ''seg123.ts'' = Some target)"
    if decode: "decode_utf8 E m3u8_bytes = Inr m3u8_content"
      and lines: "str_splitlines m3u8_content = before @ line # after"
      and run: "rewrite E url m3u8_bytes s = (Inr m3u8_text, s')"
    for m3u8_bytes m3u8_content before after s m3u8_text s'
  proof -
    from rewrite_run[OF run decode] lines obtain new_lines where
      loop: "rewrite_lines E url (before @ line # after) Map.empty = (Inr new_lines, SEGMENT_MAP s')"
      and out: "m3u8_text = str_join [LF] new_lines" by auto
    obtain o1 m1 where 1: "rewrite_lines E url before Map.empty = (Inr o1, m1)"
      using loop by (auto simp: rewrite_lines_append split: sum.splits prod.splits)
    obtain o2 where "new_lines = o1 @ ''/seg123.ts'' # o2"
      using loop 1 body by (auto simp: rewrite_lines_append split: sum.splits prod.splits)
    moreover have "length o1 = length before" using 1 by (rule rewrite_lines_length)
    ultimately have at: "new_lines ! length before = ''/seg123.ts''" by (simp add: nth_append)
    have "SEGMENT_MAP s' ''seg123.ts'' = Some target"
      if "Some ''seg123.ts'' \<notin> set (map (stored_key E url) after)"
      using rewrite_lines_at[OF loop that body] by simp
    with at out rewrite_lines_length[OF loop] show ?thesis by blast
  qed
  with body show ?thesis by blast
qed

text \<open>
  The theorem at a manifest of three lines whose second line wraps a URL on the
  direct-media host in the CORS proxy.
\<close>

theorem segment_line_rewritten_witness:
  "decode_utf8 offline
     (''#EXTM3U'' @ [LF] @ ''https://corsproxy.io/?url=https://flu.streamed.su/seg123.js'' @ [LF] @ ''#EXT-X-ENDLIST'')
     = Inr (''#EXTM3U'' @ [LF] @ ''https://corsproxy.io/?url=https://flu.streamed.su/seg123.js'' @ [LF] @ ''#EXT-X-ENDLIST'')
   \<and> str_splitlines
       (''#EXTM3U'' @ [LF] @ ''https://corsproxy.io/?url=https://flu.streamed.su/seg123.js'' @ [LF] @ ''#EXT-X-ENDLIST'')
     = [''#EXTM3U''] @ ''https://corsproxy.io/?url=https://flu.streamed.su/seg123.js'' # [''#EXT-X-ENDLIST'']
   \<and> rewrite offline ''https://x/live.m3u8''
       (''#EXTM3U'' @ [LF] @ ''https://corsproxy.io/?url=https://flu.streamed.su/seg123.js'' @ [LF] @ ''#EXT-X-ENDLIST'')
       initial_state
     = (Inr (''#EXTM3U'' @ [LF] @ ''/seg123.ts'' @ [LF] @ ''#EXT-X-ENDLIST''),
        initial_state\<lparr>SEGMENT_MAP := [''seg123.ts'' \<mapsto> ''https://flu.streamed.su/seg123.js'']\<rparr>)
   \<and> Some ''seg123.ts'' \<notin> set (map (stored_key offline ''https://x/live.m3u8'') [''#EXT-X-ENDLIST''])
   \<and> rewrite_line offline ''https://x/live.m3u8'' ''https://corsproxy.io/?url=https://flu.streamed.su/seg123.js''
     = Inr (''/seg123.ts'', Some (''seg123.ts'', ''https://flu.streamed.su/seg123.js''))
   \<and> (\<exists>new_lines.
         ''#EXTM3U'' @ [LF] @ ''/seg123.ts'' @ [LF] @ ''#EXT-X-ENDLIST'' = str_join [LF] new_lines \<and>
         length new_lines = 3 \<and> new_lines ! 1 = ''/seg123.ts'')
   \<and> SEGMENT_MAP (initial_state\<lparr>SEGMENT_MAP := [''seg123.ts'' \<mapsto> ''https://flu.streamed.su/seg123.js'']\<rparr>)
         ''seg123.ts'' = Some ''https://flu.streamed.su/seg123.js''"
proof -
  let ?line = "''https://corsproxy.io/?url=https://flu.streamed.su/seg123.js''"
  let ?b = "''#EXTM3U'' @ [LF] @ ?line @ [LF] @ ''#EXT-X-ENDLIST''"
  let ?s = "initial_state\<lparr>SEGMENT_MAP := [''seg123.ts'' \<mapsto> ''https://flu.streamed.su/seg123.js'']\<rparr>"
  have 1: "decode_utf8 offline ?b = Inr ?b"
    by (simp add: sample_defs)
  have 2: "str_splitlines ?b = [''#EXTM3U''] @ ?line # [''#EXT-X-ENDLIST'']"
    by (simp add: text_defs)
  have 3: "?line = ''https://'' @ ''corsproxy.io/?url=https://flu.streamed.su'' @ ''/seg123.js''"
    by simp
  have 4: "rewrite offline ''https://x/live.m3u8'' ?b initial_state =
             (Inr (''#EXTM3U'' @ [LF] @ ''/seg123.ts'' @ [LF] @ ''#EXT-X-ENDLIST''), ?s)"
    by (simp add: route_defs sample_defs text_defs Let_def)
  have 5: "Some ''seg123.ts'' \<notin> set (map (stored_key offline ''https://x/live.m3u8'') [''#EXT-X-ENDLIST''])"
    by (simp add: stored_key_def rewrite_line_def text_defs Let_def)
  have 6: "(if startswith (str_replace ?line ''https://corsproxy.io/?url='' []) ''https://flu.streamed.su''
            then str_replace ?line ''https://corsproxy.io/?url='' []
            else ''https://p2-panel.streamed.su/bucket-44677-gjnru5ktoa/seg123.js'')
           = ''https://flu.streamed.su/seg123.js''"
    by (simp add: text_defs)
  note t = segment_line_rewritten[OF 3 refl refl, of offline "''https://x/live.m3u8''", unfolded 6]
  from t have body: "rewrite_line offline ''https://x/live.m3u8'' ?line
       = Inr (''/seg123.ts'', Some (''seg123.ts'', ''https://flu.streamed.su/seg123.js''))"
    by blast
  from t 1 2 4 5 obtain new_lines where
    "''#EXTM3U'' @ [LF] @ ''/seg123.ts'' @ [LF] @ ''#EXT-X-ENDLIST'' = str_join [LF] new_lines"
    "length new_lines = length ([''#EXTM3U''] @ ?line # [''#EXT-X-ENDLIST''])"
    "new_lines ! length [''#EXTM3U''] = ''/seg123.ts''"
    "SEGMENT_MAP ?s ''seg123.ts'' = Some ''https://flu.streamed.su/seg123.js''"
    by blast
  then have "\<exists>new_lines.
         ''#EXTM3U'' @ [LF] @ ''/seg123.ts'' @ [LF] @ ''#EXT-X-ENDLIST'' = str_join [LF] new_lines \<and>
         length new_lines = 3 \<and> new_lines ! 1 = ''/seg123.ts''"
    and "SEGMENT_MAP ?s ''seg123.ts'' = Some ''https://flu.streamed.su/seg123.js''"
    by auto
  with 1 2 4 5 body show ?thesis by blast
qed

text \<open>
  C2 as stated decides by the host of the URL. The code decides by the beginning of
  the text: the host \<open>flu.streamed.su.example\<close> is not the direct-media host, and yet
  the entry is the original URL, not the fixed-bucket URL.
\<close>

theorem segment_line_counterexample:
  "urlparse offline ''https://flu.streamed.su.example/seg123.js'' = Inr (''https'', ''flu.streamed.su.example'')
   \<and> str_replace ''https://flu.streamed.su.example/seg123.js'' ''https://corsproxy.io/?url='' []
       = ''https://flu.streamed.su.example/seg123.js''
   \<and> rewrite offline ''https://x/live.m3u8'' (''#EXTM3U'' @ [LF] @ ''https://flu.streamed.su.example/seg123.js'')
         initial_state =
       (Inr (''#EXTM3U'' @ [LF] @ ''/seg123.ts''),
        initial_state\<lparr>SEGMENT_MAP := [''seg123.ts'' \<mapsto> ''https://flu.streamed.su.example/seg123.js'']\<rparr>)"
  by (simp add: route_defs sample_defs text_defs Let_def)

subsection \<open>C3: a key-declaration line\<close>

text \<open>
  C3, as amended. For every line that begins with \<open>#EXT-X-KEY\<close> and in which the first
  \<open>URI="\<close> opens the value \<open>/a/b/key.bin\<close>, the loop body leaves the attribute as one
  slash followed by the path without its leading slash, which is \<open>/a/b/key.bin\<close> again,
  and stores under \<open>a/b/key.bin\<close> what \<open>urljoin\<close> makes of the request URL and
  \<open>/a/b/key.bin\<close> (it raises when \<open>urljoin\<close> raises). In every run of the rewriting that
  returns a text, \<open>urljoin\<close> has answered, the line stands at its place of the output,
  and the Segment Map holds that entry afterwards unless a later line stored another
  one under the same path.
\<close>

theorem key_line_rewritten:
  assumes line: "line = ''#EXT-X-KEY'' @ pre @ ''URI='' @ [DQ] @ ''/a/b/key.bin'' @ [DQ] @ post"
    and first: "\<not> str_in (''URI='' @ [DQ]) (''#EXT-X-KEY'' @ pre @ ''URI='')"
  shows "rewrite_line E url line =
           (case urljoin E url ''/a/b/key.bin'' of
              Inl e \<Rightarrow> Inl e
            | Inr full_key_url \<Rightarrow>
                Inr (''#EXT-X-KEY'' @ pre @ ''URI='' @ [DQ] @ ''/'' @ ''a/b/key.bin'' @ [DQ] @ post,
                     Some (''a/b/key.bin'', full_key_url)))
       \<and> (\<forall>m3u8_bytes m3u8_content before after s m3u8_text s'.
            decode_utf8 E m3u8_bytes = Inr m3u8_content \<and>
            str_splitlines m3u8_content = before @ line # after \<and>
            rewrite E url m3u8_bytes s = (Inr m3u8_text, s') \<longrightarrow>
            (\<exists>new_lines full_key_url.
               urljoin E url ''/a/b/key.bin'' = Inr full_key_url \<and>
               m3u8_text = str_join [LF] new_lines \<and>
               length new_lines = length (before @ line # after) \<and>
               new_lines ! length before =
                 ''#EXT-X-KEY'' @ pre @ ''URI='' @ [DQ] @ ''/'' @ ''a/b/key.bin'' @ [DQ] @ post \<and>
               (Some ''a/b/key.bin'' \<notin> set (map (stored_key E url) after) \<longrightarrow>
                  SEGMENT_MAP s' ''a/b/key.bin'' = Some full_key_url)))"
proof -
  have body: "rewrite_line E url line =
           (case urljoin E url ''/a/b/key.bin'' of
              Inl e \<Rightarrow> Inl e
            | Inr full_key_url \<Rightarrow> Inr (line, Some (''a/b/key.bin'', full_key_url)))"
    by (rule rewrite_line_key[OF first line])
  have "\<exists>new_lines full_key_url.
          urljoin E url ''/a/b/key.bin'' = Inr full_key_url \<and>
          m3u8_text = str_join [LF] new_lines \<and>
          length new_lines = length (before @ line # after) \<and>
          new_lines ! length before = line \<and>
          (Some ''a/b/key.bin'' \<notin> set (map (stored_key E url) after) \<longrightarrow>
             SEGMENT_MAP s' ''a/b/key.bin'' = Some full_key_url)"
    if decode: "decode_utf8 E m3u8_bytes = Inr m3u8_content"
      and lines: "str_splitlines m3u8_content = before @ line # after"
      and run: "rewrite E url m3u8_bytes s = (Inr m3u8_text, s')"
    for m3u8_bytes m3u8_content before after s m3u8_text s'
  proof -
    from rewrite_run[OF run decode] lines obtain new_lines where
      loop: "rewrite_lines E url (before @ line # after) Map.empty = (Inr new_lines, SEGMENT_MAP s')"
      and out: "m3u8_text = str_join [LF] new_lines" by auto
    obtain o1 m1 where 1: "rewrite_lines E url before Map.empty = (Inr o1, m1)"
      using loop by (auto simp: rewrite_lines_append split: sum.splits prod.splits)
    from loop 1 obtain r where "rewrite_line E url line = Inr r"
      by (auto simp: rewrite_lines_append split: sum.splits prod.splits)
    with body obtain full_key_url where
      full: "urljoin E url ''/a/b/key.bin'' = Inr full_key_url"
      and body': "rewrite_line E url line = Inr (line, Some (''a/b/key.bin'', full_key_url))"
      by (auto split: sum.splits)
    obtain o2 where "new_lines = o1 @ line # o2"
      using loop 1 body' by (auto simp: rewrite_lines_append split: sum.splits prod.splits)
    moreover have "length o1 = length before" using 1 by (rule rewrite_lines_length)
    ultimately have at: "new_lines ! length before = line" by (simp add: nth_append)
    have "SEGMENT_MAP s' ''a/b/key.bin'' = Some full_key_url"
      if "Some ''a/b/key.bin'' \<notin> set (map (stored_key E url) after)"
      using rewrite_lines_at[OF loop that body'] by simp
    with at out full rewrite_lines_length[OF loop] show ?thesis by blast
  qed
  with body show ?thesis unfolding line by (simp only: append_Cons append_Nil) blast
qed

text \<open>
  The theorem at a manifest of three lines, requested from \<open>https://x/live.m3u8\<close>.
\<close>

theorem key_line_rewritten_witness:
  "\<not> str_in (''URI='' @ [DQ]) (''#EXT-X-KEY'' @ '':METHOD=AES-128,'' @ ''URI='')
   \<and> decode_utf8 offline
       (''#EXTM3U'' @ [LF] @ ''#EXT-X-KEY:METHOD=AES-128,URI='' @ [DQ] @ ''/a/b/key.bin'' @ [DQ] @ '',IV=0x1''
          @ [LF] @ ''https://x/seg1.js'')
     = Inr (''#EXTM3U'' @ [LF] @ ''#EXT-X-KEY:METHOD=AES-128,URI='' @ [DQ] @ ''/a/b/key.bin'' @ [DQ] @ '',IV=0x1''
          @ [LF] @ ''https://x/seg1.js'')
   \<and> str_splitlines
       (''#EXTM3U'' @ [LF] @ ''#EXT-X-KEY:METHOD=AES-128,URI='' @ [DQ] @ ''/a/b/key.bin'' @ [DQ] @ '',IV=0x1''
          @ [LF] @ ''https://x/seg1.js'')
     = [''#EXTM3U'']
       @ (''#EXT-X-KEY:METHOD=AES-128,URI='' @ [DQ] @ ''/a/b/key.bin'' @ [DQ] @ '',IV=0x1'')
       # [''https://x/seg1.js'']
   \<and> rewrite offline ''https://x/live.m3u8''
       (''#EXTM3U'' @ [LF] @ ''#EXT-X-KEY:METHOD=AES-128,URI='' @ [DQ] @ ''/a/b/key.bin'' @ [DQ] @ '',IV=0x1''
          @ [LF] @ ''https://x/seg1.js'')
       initial_state
     = (Inr (''#EXTM3U'' @ [LF] @ ''#EXT-X-KEY:METHOD=AES-128,URI='' @ [DQ] @ ''/a/b/key.bin'' @ [DQ] @ '',IV=0x1''
          @ [LF] @ ''/seg1.ts''),
        initial_state\<lparr>SEGMENT_MAP :=
          [''a/b/key.bin'' \<mapsto> ''https://x/a/b/key.bin'',
           ''seg1.ts'' \<mapsto> ''https://p2-panel.streamed.su/bucket-44677-gjnru5ktoa/seg1.js'']\<rparr>)
   \<and> Some ''a/b/key.bin'' \<notin> set (map (stored_key offline ''https://x/live.m3u8'') [''https://x/seg1.js''])
   \<and> urljoin offline ''https://x/live.m3u8'' ''/a/b/key.bin'' = Inr ''https://x/a/b/key.bin''
   \<and> (\<exists>new_lines.
         ''#EXTM3U'' @ [LF] @ ''#EXT-X-KEY:METHOD=AES-128,URI='' @ [DQ] @ ''/a/b/key.bin'' @ [DQ] @ '',IV=0x1''
           @ [LF] @ ''/seg1.ts'' = str_join [LF] new_lines \<and>
         length new_lines = 3 \<and>
         new_lines ! 1 = ''#EXT-X-KEY:METHOD=AES-128,URI='' @ [DQ] @ ''/a/b/key.bin'' @ [DQ] @ '',IV=0x1'')
   \<and> SEGMENT_MAP
         (initial_state\<lparr>SEGMENT_MAP :=
            [''a/b/key.bin'' \<mapsto> ''https://x/a/b/key.bin'',
             ''seg1.ts'' \<mapsto> ''https://p2-panel.streamed.su/bucket-44677-gjnru5ktoa/seg1.js'']\<rparr>)
         ''a/b/key.bin'' = Some ''https://x/a/b/key.bin''"
proof -
  let ?line = "''#EXT-X-KEY:METHOD=AES-128,URI='' @ [DQ] @ ''/a/b/key.bin'' @ [DQ] @ '',IV=0x1''"
  let ?b = "''#EXTM3U'' @ [LF] @ ?line @ [LF] @ ''https://x/seg1.js''"
  let ?t = "''#EXTM3U'' @ [LF] @ ?line @ [LF] @ ''/seg1.ts''"
  let ?s = "initial_state\<lparr>SEGMENT_MAP :=
        [''a/b/key.bin'' \<mapsto> ''https://x/a/b/key.bin'',
         ''seg1.ts'' \<mapsto> ''https://p2-panel.streamed.su/bucket-44677-gjnru5ktoa/seg1.js'']\<rparr>"
  have 1: "decode_utf8 offline ?b = Inr ?b"
    by (simp add: sample_defs)
  have 2: "str_splitlines ?b = [''#EXTM3U''] @ ?line # [''https://x/seg1.js'']"
    by (simp add: text_defs)
  have 3: "?line = ''#EXT-X-KEY'' @ '':METHOD=AES-128,'' @ ''URI='' @ [DQ] @ ''/a/b/key.bin'' @ [DQ] @ '',IV=0x1''"
    by simp
  have 4: "\<not> str_in (''URI='' @ [DQ]) (''#EXT-X-KEY'' @ '':METHOD=AES-128,'' @ ''URI='')"
    by simp
  have 5: "rewrite offline ''https://x/live.m3u8'' ?b initial_state = (Inr ?t, ?s)"
    by (simp add: route_defs sample_defs text_defs Let_def)
  have 6: "Some ''a/b/key.bin'' \<notin> set (map (stored_key offline ''https://x/live.m3u8'') [''https://x/seg1.js''])"
    by (simp add: stored_key_def rewrite_line_def text_defs Let_def)
  have 7: "urljoin offline ''https://x/live.m3u8'' ''/a/b/key.bin'' = Inr ''https://x/a/b/key.bin''"
    by (simp add: sample_defs text_defs)
  note t = key_line_rewritten[OF 3 4, of offline "''https://x/live.m3u8''"]
  from t 1 2 5 6 obtain new_lines full_key_url where
    "urljoin offline ''https://x/live.m3u8'' ''/a/b/key.bin'' = Inr full_key_url"
    "?t = str_join [LF] new_lines"
    "length new_lines = length ([''#EXTM3U''] @ ?line # [''https://x/seg1.js''])"
    "new_lines ! length [''#EXTM3U''] =
       ''#EXT-X-KEY'' @ '':METHOD=AES-128,'' @ ''URI='' @ [DQ] @ ''/'' @ ''a/b/key.bin'' @ [DQ] @ '',IV=0x1''"
    "SEGMENT_MAP ?s ''a/b/key.bin'' = Some full_key_url"
    by blast
  with 7 have "\<exists>new_lines. ?t = str_join [LF] new_lines \<and> length new_lines = 3 \<and> new_lines ! 1 = ?line"
    and "SEGMENT_MAP ?s ''a/b/key.bin'' = Some ''https://x/a/b/key.bin''"
    by auto
  with 1 2 4 5 6 7 show ?thesis by simp
qed

text \<open>
  C3 as stated has no such proviso. A later key line whose URI is the relative
  \<open>a/b/key.bin\<close> is stored under the same path, and the last write wins: requested from
  \<open>https://x/dir/live.m3u8\<close>, the map ends with the resolution of the relative URI and
  not with that of \<open>/a/b/key.bin\<close>.
\<close>

theorem key_line_counterexample:
  "rewrite offline ''https://x/dir/live.m3u8''
     (''#EXTM3U'' @ [LF] @ ''#EXT-X-KEY:METHOD=AES-128,URI='' @ [DQ] @ ''/a/b/key.bin'' @ [DQ]
        @ [LF] @ ''#EXT-X-KEY:METHOD=AES-128,URI='' @ [DQ] @ ''a/b/key.bin'' @ [DQ])
     initial_state =
     (Inr (''#EXTM3U'' @ [LF] @ ''#EXT-X-KEY:METHOD=AES-128,URI='' @ [DQ] @ ''/a/b/key.bin'' @ [DQ]
        @ [LF] @ ''#EXT-X-KEY:METHOD=AES-128,URI='' @ [DQ] @ ''/a/b/key.bin'' @ [DQ]),
      initial_state\<lparr>SEGMENT_MAP := [''a/b/key.bin'' \<mapsto> ''https://x/dir/a/b/key.bin'']\<rparr>)
   \<and> urljoin offline ''https://x/dir/live.m3u8'' ''/a/b/key.bin'' = Inr ''https://x/a/b/key.bin''"
  by (simp add: route_defs sample_defs text_defs Let_def)

subsection \<open>C4: manifests with the header marker\<close>

text \<open>
  C4 says that the rewriting never raises on a body that contains \<open>#EXTM3U\<close>. The loop
  tests a key line for \<open>URI=\<close> but splits it at \<open>URI="\<close>, so a key line whose URI is not
  quoted raises \<open>IndexError\<close>: the body below contains the marker, and the route answers
  500 with the message of that exception.
\<close>

theorem unquoted_key_uri_raises:
  "str_in ''#EXTM3U'' (''#EXTM3U'' @ [LF] @ ''#EXT-X-KEY:METHOD=AES-128,URI=key.bin'')
   \<and> get_playlist (upstream ''https://x/live.m3u8'' (''#EXTM3U'' @ [LF] @ ''#EXT-X-KEY:METHOD=AES-128,URI=key.bin''))
         ''https://x/live.m3u8'' ''a=1'' initial_state =
       (Inl (HTTPException 500 ''Error fetching M3U8: list index out of range''),
        initial_state\<lparr>sent := [get_request ''https://x/live.m3u8'' ''a=1'']\<rparr>)"
  by (simp add: route_defs sample_defs text_defs Let_def)

subsection \<open>C5: the retry bound of the fetcher\<close>

text \<open>
  C5. For every URL and cookie string, when every GET that \<open>fetch_resource\<close> makes for
  them fails (the request to each of the three candidates raises a transport error, or
  its status is not a success, whatever was sent before), \<open>fetch_resource\<close> with its
  three retries makes exactly nine attempts, three on each of the three candidates in
  the order of the candidates, and then returns \<open>None\<close>: the result is \<open>Inr None\<close>, not
  an exception. Nothing is asked of any other request.
\<close>

theorem fetch_resource_all_attempts_fail:
  assumes "\<And>log u. u \<in> set (sources url) \<Longrightarrow> attempt_fails E log (get_request u cookies)"
  shows "fetch_resource E url cookies 3 s =
           (Inr None,
            s\<lparr>sent := sent s @ concat (map (\<lambda>source_url. replicate 3 (get_request source_url cookies))
                                            (sources url))\<rparr>)
         \<and> length (concat (map (\<lambda>source_url. replicate 3 (get_request source_url cookies))
                               (sources url))) = 9"
proof -
  have one: "attempt_loop E u (dict_set HEADERS ''Cookie'' cookies) 3 [1..3] t =
           (Inr None, t\<lparr>sent := sent t @ replicate 3 (get_request u cookies)\<rparr>)"
    if "u \<in> set (sources url)" for u t
    using attempt_loop_fails[of E u "dict_set HEADERS ''Cookie'' cookies" t] assms[OF that]
    by (simp add: get_request_def)
  have "url \<in> set (sources url)"
    "str_replace url ''rr.buytommy.top'' ''p2-panel.streamed.su'' \<in> set (sources url)"
    "str_replace url ''rr.buytommy.top'' ''flu.streamed.su'' \<in> set (sources url)"
    by (simp_all add: sources_def)
  note o = this[THEN one]
  show ?thesis
    by (simp add: fetch_resource_def sources_def o)
qed

text \<open>
  The theorem in an environment where the manifest URL answers and the three candidates
  of a segment do not.
\<close>

theorem fetch_resource_all_attempts_fail_witness:
  "sources ''https://rr.buytommy.top/seg1.js'' =
     [''https://rr.buytommy.top/seg1.js'', ''https://p2-panel.streamed.su/seg1.js'',
      ''https://flu.streamed.su/seg1.js'']
   \<and> (\<forall>log. attempt_fails (upstream ''https://x/live.m3u8'' ''#EXTM3U'') log
                (get_request ''https://rr.buytommy.top/seg1.js'' ''a=1''))
   \<and> (\<forall>log. attempt_fails (upstream ''https://x/live.m3u8'' ''#EXTM3U'') log
                (get_request ''https://p2-panel.streamed.su/seg1.js'' ''a=1''))
   \<and> (\<forall>log. attempt_fails (upstream ''https://x/live.m3u8'' ''#EXTM3U'') log
                (get_request ''https://flu.streamed.su/seg1.js'' ''a=1''))
   \<and> \<not> attempt_fails (upstream ''https://x/live.m3u8'' ''#EXTM3U'') [] (get_request ''https://x/live.m3u8'' ''a=1'')
   \<and> fetch_resource (upstream ''https://x/live.m3u8'' ''#EXTM3U'') ''https://rr.buytommy.top/seg1.js'' ''a=1'' 3
        initial_state =
     (Inr None,
      initial_state\<lparr>sent :=
        replicate 3 (get_request ''https://rr.buytommy.top/seg1.js'' ''a=1'')
        @ replicate 3 (get_request ''https://p2-panel.streamed.su/seg1.js'' ''a=1'')
        @ replicate 3 (get_request ''https://flu.streamed.su/seg1.js'' ''a=1'')\<rparr>)"
proof -
  let ?E = "upstream ''https://x/live.m3u8'' ''#EXTM3U''"
  have src: "sources ''https://rr.buytommy.top/seg1.js'' =
          [''https://rr.buytommy.top/seg1.js'', ''https://p2-panel.streamed.su/seg1.js'',
           ''https://flu.streamed.su/seg1.js'']"
    by (simp add: sources_def str_replace_def)
  have fails: "attempt_fails ?E log (get_request u ''a=1'')"
    if "u \<in> set (sources ''https://rr.buytommy.top/seg1.js'')" for log u
    using that by (auto simp: src attempt_fails_def upstream_def offline_def get_request_def)
  have answers: "\<not> attempt_fails ?E [] (get_request ''https://x/live.m3u8'' ''a=1'')"
    by (simp add: attempt_fails_def upstream_def offline_def get_request_def)
  from fetch_resource_all_attempts_fail[of "''https://rr.buytommy.top/seg1.js''" ?E "''a=1''" initial_state, OF fails]
    fails[unfolded src] answers src
  show ?thesis by (simp add: initial_state_def)
qed

subsection \<open>C6: the answer to a range request\<close>

text \<open>
  C6, as amended. For every resource request whose \<open>Range\<close> header is not empty and
  whose fetch succeeds with a payload of length \<open>len\<close>, the response has status 206, the
  whole payload as body, and the headers \<open>Access-Control-Allow-Origin: *\<close>,
  \<open>Accept-Ranges: bytes\<close> and \<open>Content-Range: bytes 0-{len-1}/{len}\<close>.
\<close>

theorem range_request_answered:
  assumes "range_header = Some r" and "r \<noteq> []"
    and "fetch_resource E (resolved_url s path) (supplied_cookies query_cookies) 3 s =
           (Inr (Some (content, content_type)), s')"
  shows "get_resource E path query_cookies range_header s =
           (Inr \<lparr>status_code = 206, body = content, media_type = content_type,
                 response_headers =
                   [(''Access-Control-Allow-Origin'', ''*''),
                    (''Accept-Ranges'', ''bytes''),
                    (''Content-Range'', ''bytes 0-'' @ str_int (int (length content) - 1) @ ''/''
                                         @ str_int (int (length content)))]\<rparr>, s')"
  using assms by (simp add: get_resource_def truthy_def Let_def resolved_url_def supplied_cookies_def)

text \<open>
  The theorem at a request for bytes 0 to 3 of a payload of ten bytes.
\<close>

theorem range_request_answered_witness:
  "get_resource (upstream ''https://rr.buytommy.top/seg1.js'' ''0123456789'') ''seg1.ts'' None
     (Some ''bytes=0-3'') initial_state =
     (Inr \<lparr>status_code = 206, body = ''0123456789'', media_type = ''video/mp2t'',
           response_headers = [(''Access-Control-Allow-Origin'', ''*''), (''Accept-Ranges'', ''bytes''),
                               (''Content-Range'', ''bytes 0-9/10'')]\<rparr>,
      initial_state\<lparr>sent := [get_request ''https://rr.buytommy.top/seg1.js'' []]\<rparr>)"
proof -
  let ?E = "upstream ''https://rr.buytommy.top/seg1.js'' ''0123456789''"
  have f: "fetch_resource ?E (resolved_url initial_state ''seg1.ts'') (supplied_cookies None) 3 initial_state =
             (Inr (Some (''0123456789'', ''video/mp2t'')),
              initial_state\<lparr>sent := [get_request ''https://rr.buytommy.top/seg1.js'' []]\<rparr>)"
    by (simp add: resolved_url_def supplied_cookies_def route_defs sample_defs text_defs)
  have n: "''bytes 0-'' @ str_int (int (length ''0123456789'') - 1) @ ''/'' @ str_int (int (length ''0123456789''))
            = ''bytes 0-9/10''"
    by (simp add: str_int_def)
  have "''bytes=0-3'' \<noteq> []" by simp
  from range_request_answered[OF refl this f] n show ?thesis by simp
qed

text \<open>
  C6 as stated speaks of every request that carries a \<open>Range\<close> header. The route tests
  the truth value of the header, so a \<open>Range\<close> header with an empty value is answered
  with status 200 and no \<open>Content-Range\<close>.
\<close>

theorem range_request_counterexample:
  "get_resource (upstream ''https://rr.buytommy.top/seg1.js'' ''0123456789'') ''seg1.ts'' None (Some [])
     initial_state =
     (Inr \<lparr>status_code = 200, body = ''0123456789'', media_type = ''video/mp2t'',
           response_headers = [(''Access-Control-Allow-Origin'', ''*''), (''Accept-Ranges'', ''bytes'')]\<rparr>,
      initial_state\<lparr>sent := [get_request ''https://rr.buytommy.top/seg1.js'' []]\<rparr>)"
  by (simp add: route_defs sample_defs text_defs Let_def)

subsection \<open>C7: the cookie cache\<close>

text \<open>
  C7. In every state the server can reach, when the cookie cache holds a value,
  \<open>fetch_cookies\<close> returns that value and leaves the state as it is, so it sends
  nothing; and the cache holds the same value after any number of further requests,
  and after any call of \<open>fetch_resource\<close>, whether it fails or not.
\<close>

theorem cookie_cache_kept:
  assumes "reachable E s" and "CACHED_COOKIES s = Some c"
  shows "fetch_cookies E s = (Inr (Some c), s) \<and>
         (\<forall>s'. (serves E)\<^sup>*\<^sup>* s s' \<longrightarrow> CACHED_COOKIES s' = Some c) \<and>
         (\<forall>url cookies retries. CACHED_COOKIES (snd (fetch_resource E url cookies retries s)) = Some c)"
proof -
  have t: "truthy (CACHED_COOKIES s)"
    using assms reachable_cached[OF assms(1)] by (auto simp: truthy_def)
  have "fetch_cookies E s = (Inr (Some c), s)"
    using fetch_cookies_cached[OF t] assms(2) by simp
  moreover have "CACHED_COOKIES s' = Some c" if "(serves E)\<^sup>*\<^sup>* s s'" for s'
    using serves_star_cached[OF that t] assms(2) by simp
  moreover have "CACHED_COOKIES (snd (fetch_resource E url cookies retries s)) = Some c"
    for url cookies retries
    using fetch_resource_globals[OF surjective_pairing, of E url cookies retries s] assms(2) by simp
  ultimately show ?thesis by blast
qed

text \<open>
  The theorem at the state after one manifest request in the environment \<open>landing\<close>,
  where the fallback has fetched the cookie \<open>ddg1_=abc\<close>; a resource request that fails
  on all mirrors follows.
\<close>

theorem cookie_cache_kept_witness:
  "reachable landing (snd (get_playlist landing ''https://x/live.m3u8'' ''a=1'' initial_state)) \<and>
   CACHED_COOKIES (snd (get_playlist landing ''https://x/live.m3u8'' ''a=1'' initial_state)) = Some ''ddg1_=abc'' \<and>
   fetch_cookies landing (snd (get_playlist landing ''https://x/live.m3u8'' ''a=1'' initial_state)) =
     (Inr (Some ''ddg1_=abc''), snd (get_playlist landing ''https://x/live.m3u8'' ''a=1'' initial_state)) \<and>
   CACHED_COOKIES
     (snd (get_resource landing ''seg1.ts'' None None
            (snd (get_playlist landing ''https://x/live.m3u8'' ''a=1'' initial_state)))) = Some ''ddg1_=abc''"
proof -
  let ?s = "snd (get_playlist landing ''https://x/live.m3u8'' ''a=1'' initial_state)"
  have r: "reachable landing ?s"
    by (rule reachable_serves[OF reachable_initial serves_playlist])
  have c: "CACHED_COOKIES ?s = Some ''ddg1_=abc''"
    by (simp add: route_defs sample_defs text_defs Let_def)
  have "(serves landing)\<^sup>*\<^sup>* ?s (snd (get_resource landing ''seg1.ts'' None None ?s))"
    by (rule r_into_rtranclp) (rule serves_resource)
  with cookie_cache_kept[OF r c] r c show ?thesis by blast
qed

subsection \<open>C8: rewriting twice\<close>

text \<open>
  C8. Running the rewriting a second time on the same bytes and the same URL, from the
  state the first run left, gives the same result (the same text, or the same
  exception) and leaves the state, and so the Segment Map, as the first run left it.
\<close>

theorem rewrite_twice:
  "rewrite E url m3u8_bytes (snd (rewrite E url m3u8_bytes s)) = rewrite E url m3u8_bytes s"
  by (auto simp: rewrite_def Let_def split: sum.splits prod.splits)

subsection \<open>C9: a body without the header marker\<close>

text \<open>
  C9. When the cookies normalise, the manifest is fetched, and the decoded body does not
  contain \<open>#EXTM3U\<close>, the manifest route raises an \<open>HTTPException\<close> with status 500 and
  the Segment Map is what it was before the request.
\<close>

theorem invalid_manifest_keeps_map:
  assumes "normalize_cookies E cookies = Inr cookies'"
    and "fetch_manifest E url cookies' s = (Inr (m3u8_bytes, content_type), s1)"
    and "decode_utf8 E m3u8_bytes = Inr m3u8_content"
    and "\<not> str_in ''#EXTM3U'' m3u8_content"
  shows "get_playlist E url cookies s =
           (Inl (HTTPException 500
                  (''Error fetching M3U8: '' @ str_exn E (HTTPException 500 ''Invalid M3U8 content''))), s1)
         \<and> SEGMENT_MAP s1 = SEGMENT_MAP s"
  using assms fetch_manifest_globals(1)[OF assms(2)]
  by (simp add: get_playlist_def rewrite_def)

text \<open>
  The theorem at an upstream that answers with an HTML page, from a state whose map
  has an entry.
\<close>

theorem invalid_manifest_keeps_map_witness:
  "get_playlist (upstream ''https://x/live.m3u8'' ''<html>no playlist</html>'') ''https://x/live.m3u8'' ''a=1''
     (initial_state\<lparr>SEGMENT_MAP := [''seg1.ts'' \<mapsto> ''https://flu.streamed.su/seg1.js'']\<rparr>) =
     (Inl (HTTPException 500 ''Error fetching M3U8: 500: Invalid M3U8 content''),
      initial_state\<lparr>SEGMENT_MAP := [''seg1.ts'' \<mapsto> ''https://flu.streamed.su/seg1.js''],
                     sent := [get_request ''https://x/live.m3u8'' ''a=1'']\<rparr>)"
proof -
  let ?E = "upstream ''https://x/live.m3u8'' ''<html>no playlist</html>''"
  let ?s = "initial_state\<lparr>SEGMENT_MAP := [''seg1.ts'' \<mapsto> ''https://flu.streamed.su/seg1.js'']\<rparr>"
  have 1: "normalize_cookies ?E ''a=1'' = Inr ''a=1''"
    by (simp add: normalize_cookies_def unquoted_cookies_def upstream_def offline_def format_pair_def text_defs)
  have 2: "fetch_manifest ?E ''https://x/live.m3u8'' ''a=1'' ?s =
             (Inr (''<html>no playlist</html>'', ''application/octet-stream''),
              ?s\<lparr>sent := [get_request ''https://x/live.m3u8'' ''a=1'']\<rparr>)"
    by (simp add: fetch_manifest_def fetch_resource_def sources_def upto_1_3 get_checked_def send_def
        upstream_def offline_def resolved_content_type_def get_request_def initial_state_def text_defs)
  have 3: "decode_utf8 ?E ''<html>no playlist</html>'' = Inr ''<html>no playlist</html>''"
    by (simp add: upstream_def offline_def sample_decode_def)
  have 4: "\<not> str_in ''#EXTM3U'' ''<html>no playlist</html>''"
    by simp
  have 5: "str_exn ?E (HTTPException 500 ''Invalid M3U8 content'') = ''500: Invalid M3U8 content''"
    by (simp add: upstream_def offline_def str_int_def)
  from invalid_manifest_keeps_map[OF 1 2 3 4] 5 show ?thesis by simp
qed

subsection \<open>C10: a cookie pair without an equals sign\<close>

text \<open>
  C10, as amended. When the \<open>cookies\<close> parameter, after \<open>unquote\<close> and after the two
  replacements of \<open>%3B+\<close> by \<open>; \<close> and of \<open>%3D\<close> by \<open>=\<close>, has a pair between \<open>; \<close>
  separators that is not empty and has no \<open>=\<close>, the manifest route raises an
  \<open>HTTPException\<close> with status 500 that carries the \<open>IndexError\<close>, and the state is as
  before: nothing was sent.
\<close>

theorem cookie_pair_without_equals:
  assumes "pair \<in> set (str_split (unquoted_cookies E cookies) ''; '')"
    and "pair \<noteq> []" and "CHR ''='' \<notin> set pair"
  shows "get_playlist E url cookies s =
           (Inl (HTTPException 500 (''Error fetching M3U8: '' @ str_exn E IndexError)), s)"
  using format_pairs_raises[OF assms]
  by (simp add: get_playlist_def normalize_cookies_def)

text \<open>
  The theorem at \<open>cookies=abc\<close>.
\<close>

theorem cookie_pair_without_equals_witness:
  "get_playlist offline ''https://x/live.m3u8'' ''abc'' initial_state =
     (Inl (HTTPException 500 ''Error fetching M3U8: list index out of range''), initial_state)"
proof -
  have 1: "''abc'' \<in> set (str_split (unquoted_cookies offline ''abc'') ''; '')"
    by (simp add: unquoted_cookies_def offline_def text_defs)
  have 2: "''abc'' \<noteq> []" "CHR ''='' \<notin> set ''abc''" by simp_all
  have 3: "str_exn offline IndexError = ''list index out of range''"
    by (simp add: offline_def)
  from cookie_pair_without_equals[OF 1 2, of "''https://x/live.m3u8''" initial_state] 3
  show ?thesis by simp
qed

text \<open>
  C10 as stated looks at the URL-decoded parameter. The parameter \<open>a%253Db\<close> has no
  \<open>=\<close>, and neither has its decoding \<open>a%3Db\<close>, but the second replacement makes it
  \<open>a=b\<close>: the manifest is fetched with that cookie and the route answers 200.
\<close>

theorem cookie_pair_counterexample:
  "CHR ''='' \<notin> set ''a%253Db''
   \<and> ''a%3Db'' \<in> set (str_split (unquote (upstream ''https://x/live.m3u8'' (''#EXTM3U'' @ [LF] @ ''https://x/seg1.js'')) ''a%253Db'') ''; '')
   \<and> CHR ''='' \<notin> set ''a%3Db''
   \<and> get_playlist (upstream ''https://x/live.m3u8'' (''#EXTM3U'' @ [LF] @ ''https://x/seg1.js''))
         ''https://x/live.m3u8'' ''a%253Db'' initial_state =
       (Inr \<lparr>status_code = 200, body = ''#EXTM3U'' @ [LF] @ ''/seg1.ts'',
             media_type = ''application/vnd.apple.mpegurl'',
             response_headers = [(''Access-Control-Allow-Origin'', ''*'')]\<rparr>,
        \<lparr>SEGMENT_MAP = [''seg1.ts'' \<mapsto> ''https://p2-panel.streamed.su/bucket-44677-gjnru5ktoa/seg1.js''],
         CACHED_COOKIES = None,
         sent = [get_request ''https://x/live.m3u8'' ''a=b'']\<rparr>)"
  by (simp add: route_defs sample_defs text_defs Let_def)

end
